theory Spec2Isabelle
  imports Main "HOL-Library.Sublist" "HOL-Library.Char_ord"
begin

section \<open>Strings\<close>

text \<open>
  A JavaScript string is modelled as a list of characters, each character standing for one
  code unit in the range 0..255 (the Latin-1 range, in which a code unit is a code point).
  On that range the definitions below agree with the built-ins they are named after:
  the white space of \<^verbatim>\<open>trim\<close> and of the regular-expression class \<^verbatim>\<open>\s\<close> is
  TAB, LF, VT, FF, CR, SPACE and NO-BREAK SPACE, and \<^verbatim>\<open>toLowerCase\<close> maps A..Z and the
  upper-case letters U+00C0..U+00DE (without the multiplication sign U+00D7) to the
  code unit 32 places higher.
\<close>

definition isWhiteSpace :: "char \<Rightarrow> bool" where
  "isWhiteSpace c =
     (c = CHR 0x09 \<or> c = CHR 0x0A \<or> c = CHR 0x0B \<or> c = CHR 0x0C \<or> c = CHR 0x0D \<or>
      c = CHR 0x20 \<or> c = CHR 0xA0)"

definition trim :: "string \<Rightarrow> string" where
  "trim s = rev (dropWhile isWhiteSpace (rev (dropWhile isWhiteSpace s)))"

definition isUpperCase :: "char \<Rightarrow> bool" where
  "isUpperCase c =
     ((CHR ''A'' \<le> c \<and> c \<le> CHR ''Z'') \<or> (CHR 0xC0 \<le> c \<and> c \<le> CHR 0xDE \<and> c \<noteq> CHR 0xD7))"

definition toLowerCaseChar :: "char \<Rightarrow> char" where
  "toLowerCaseChar c = (if isUpperCase c then char_of (of_char c + (32 :: nat)) else c)"

definition toLowerCase :: "string \<Rightarrow> string" where
  "toLowerCase s = map toLowerCaseChar s"

text \<open>\<^verbatim>\<open>s.includes(t)\<close>, \<^verbatim>\<open>s.startsWith(t)\<close> and \<^verbatim>\<open>s.endsWith(t)\<close>.\<close>

definition includes' :: "string \<Rightarrow> string \<Rightarrow> bool" where
  "includes' s t = sublist t s"

definition startsWith :: "string \<Rightarrow> string \<Rightarrow> bool" where
  "startsWith s t = prefix t s"

definition endsWith :: "string \<Rightarrow> string \<Rightarrow> bool" where
  "endsWith s t = suffix t s"

text \<open>
  \<^verbatim>\<open>s.split(sep)\<close> for a separator of one character: the segments between the
  separators, in order. The result is never empty; the empty string gives one empty segment.
\<close>

fun split :: "char \<Rightarrow> string \<Rightarrow> string list" where
  "split sep [] = [[]]"
| "split sep (c # cs) =
     (if c = sep then [] # split sep cs
      else (case split sep cs of [] \<Rightarrow> [[c]] | l # ls \<Rightarrow> (c # l) # ls))"

text \<open>\<^verbatim>\<open>xs.join(sep)\<close>, \<^verbatim>\<open>xs.slice(a, b)\<close> for \<open>0 \<le> a\<close>, \<open>0 \<le> b\<close>, and \<^verbatim>\<open>xs[0]\<close>
  on an array that has a first element.\<close>

fun join :: "string \<Rightarrow> string list \<Rightarrow> string" where
  "join sep [] = []"
| "join sep [x] = x"
| "join sep (x # y # ys) = x @ sep @ join sep (y # ys)"

definition slice :: "'a list \<Rightarrow> nat \<Rightarrow> nat \<Rightarrow> 'a list" where
  "slice xs a b = take (b - a) (drop a xs)"

definition beforeFirst :: "char \<Rightarrow> string \<Rightarrow> string" where
  "beforeFirst sep s = hd (split sep s)"

text \<open>Decimal rendering of a non-negative integer in a template string.\<close>

definition digit :: "nat \<Rightarrow> char" where
  "digit d = char_of (48 + d)"

fun numberToString :: "nat \<Rightarrow> string" where
  "numberToString n = (if n < 10 then [digit n] else numberToString (n div 10) @ [digit (n mod 10)])"

declare numberToString.simps [simp del]

section \<open>The lexical patterns\<close>

text \<open>The character classes \<^verbatim>\<open>[a-zA-Z_]\<close> and \<^verbatim>\<open>[a-zA-Z0-9_]\<close>.\<close>

definition isIdentStart :: "char \<Rightarrow> bool" where
  "isIdentStart c =
     ((CHR ''a'' \<le> c \<and> c \<le> CHR ''z'') \<or> (CHR ''A'' \<le> c \<and> c \<le> CHR ''Z'') \<or> c = CHR ''_'')"

definition isIdentChar :: "char \<Rightarrow> bool" where
  "isIdentChar c =
     ((CHR ''a'' \<le> c \<and> c \<le> CHR ''z'') \<or> (CHR ''A'' \<le> c \<and> c \<le> CHR ''Z'') \<or>
      (CHR ''0'' \<le> c \<and> c \<le> CHR ''9'') \<or> c = CHR ''_'')"

text \<open>
  \<^verbatim>\<open>/^[a-zA-Z_][a-zA-Z0-9_]*\s*X/\<close> for a character \<open>X\<close> that is neither an
  identifier character nor white space. The three classes are disjoint, so the greedy
  match of the two starred classes is the only one that can succeed and backtracking adds
  nothing.
\<close>

definition identifierThen :: "char \<Rightarrow> string \<Rightarrow> bool" where
  "identifierThen X s =
     (case s of
        [] \<Rightarrow> False
      | c # cs \<Rightarrow>
          isIdentStart c \<and>
          (case dropWhile isWhiteSpace (dropWhile isIdentChar cs) of
             [] \<Rightarrow> False
           | d # rest \<Rightarrow> d = X))"

text \<open>\<^verbatim>\<open>/^[a-zA-Z_][a-zA-Z0-9_]*\s*\(/\<close>, the test of a function line.\<close>

definition functionPattern :: "string \<Rightarrow> bool" where
  "functionPattern s = identifierThen CHR ''('' s"

text \<open>
  \<^verbatim>\<open>/^var\s+/\<close>: when the string starts with \<^verbatim>\<open>var\<close> and at least one white space
  character, the rest of the string after the (greedy) match.
\<close>

definition varPrefix :: "string \<Rightarrow> string option" where
  "varPrefix s =
     (if take 3 s = ''var'' \<and> drop 3 s \<noteq> [] \<and> isWhiteSpace (hd (drop 3 s))
      then Some (dropWhile isWhiteSpace (drop 3 s)) else None)"

text \<open>
  \<^verbatim>\<open>/^(var\s+)?[a-zA-Z_][a-zA-Z0-9_]*\s*=/\<close>: the optional group is tried first and,
  when the rest does not match after it, the match is retried without the group.
\<close>

definition variablePattern :: "string \<Rightarrow> bool" where
  "variablePattern s =
     ((case varPrefix s of Some r \<Rightarrow> identifierThen CHR ''='' r | None \<Rightarrow> False) \<or>
      identifierThen CHR ''='' s)"

text \<open>\<^verbatim>\<open>s.replace(/^var\s+/, '')\<close>.\<close>

definition removeVarPrefix :: "string \<Rightarrow> string" where
  "removeVarPrefix s = (case varPrefix s of Some r \<Rightarrow> r | None \<Rightarrow> s)"

definition plotPattern :: "string \<Rightarrow> bool" where
  "plotPattern s = (includes' s ''plot('' \<or> includes' s ''plotshape('' \<or> includes' s ''plotchar('')"

definition inputPattern :: "string \<Rightarrow> bool" where
  "inputPattern s = (includes' s ''input('' \<or> includes' s ''input.'')"

definition alertPattern :: "string \<Rightarrow> bool" where
  "alertPattern s = (includes' s ''alert('' \<or> includes' s ''alertcondition('')"

section \<open>analyzeIndicatorCode\<close>

datatype tier = Low | Medium | High

record components =
  "functions" :: "string list"
  variables :: "string list"
  plots :: "string list"
  inputs :: "string list"
  alerts :: "string list"

record analysis = components +
  complexity :: tier
  lineCount :: nat

text \<open>The body of the loop over the lines: each test pushes onto its own array.\<close>

definition pushFunction :: "string \<Rightarrow> components \<Rightarrow> components" where
  "pushFunction trimmed st =
     (if functionPattern trimmed
      then st\<lparr>functions := functions st @ [beforeFirst CHR ''('' trimmed]\<rparr> else st)"

definition pushVariable :: "string \<Rightarrow> components \<Rightarrow> components" where
  "pushVariable trimmed st =
     (if variablePattern trimmed
      then (let varName = trim (beforeFirst CHR ''='' (removeVarPrefix trimmed))
            in st\<lparr>variables := variables st @ [varName]\<rparr>)
      else st)"

definition pushPlot :: "string \<Rightarrow> components \<Rightarrow> components" where
  "pushPlot trimmed st = (if plotPattern trimmed then st\<lparr>plots := plots st @ [trimmed]\<rparr> else st)"

definition pushInput :: "string \<Rightarrow> components \<Rightarrow> components" where
  "pushInput trimmed st = (if inputPattern trimmed then st\<lparr>inputs := inputs st @ [trimmed]\<rparr> else st)"

definition pushAlert :: "string \<Rightarrow> components \<Rightarrow> components" where
  "pushAlert trimmed st = (if alertPattern trimmed then st\<lparr>alerts := alerts st @ [trimmed]\<rparr> else st)"

definition scanLine :: "components \<Rightarrow> string \<Rightarrow> components" where
  "scanLine st line =
     (let trimmed = trim line
      in pushAlert trimmed (pushInput trimmed (pushPlot trimmed
           (pushVariable trimmed (pushFunction trimmed st)))))"

definition noComponents :: components where
  "noComponents = \<lparr>functions = [], variables = [], plots = [], inputs = [], alerts = []\<rparr>"

definition scanLines :: "string list \<Rightarrow> components" where
  "scanLines lines = foldl scanLine noComponents lines"

text \<open>The two threshold tests, applied one after the other to the arrays before they
  are cut.\<close>

definition determineComplexity :: "nat \<Rightarrow> nat \<Rightarrow> nat \<Rightarrow> tier" where
  "determineComplexity nLines nFunctions nPlots =
     (let complexity = Low;
          complexity = (if nLines > 100 \<or> nFunctions > 10 then Medium else complexity);
          complexity = (if nLines > 300 \<or> nFunctions > 20 \<or> nPlots > 5 then High else complexity)
      in complexity)"

definition analyzeIndicatorCode :: "string \<Rightarrow> analysis" where
  "analyzeIndicatorCode content =
     (let lines = split CHR 0x0A content;
          st = scanLines lines
      in \<lparr>functions = slice (functions st) 0 10,
          variables = slice (variables st) 0 15,
          plots = slice (plots st) 0 10,
          inputs = slice (inputs st) 0 10,
          alerts = slice (alerts st) 0 5,
          complexity = determineComplexity (length lines) (length (functions st)) (length (plots st)),
          lineCount = length lines\<rparr>)"

section \<open>extract_functions\<close>

record functionSpan =
  name :: string
  startLine :: nat
  endLine :: nat
  "code" :: string

text \<open>
  The body of the inner loop on one line: the state is \<open>(braceCount, inFunction)\<close>, and
  the third component of the result tells whether the loop stops at this line with
  \<open>functionEnd\<close> set to it.
\<close>

definition braceStep :: "string \<Rightarrow> int \<times> bool \<Rightarrow> int \<times> bool \<times> bool" where
  "braceStep currentLine st =
     (let (braceCount, inFunction) = st;
          (braceCount, inFunction) =
             (if includes' currentLine ''{'' then (braceCount + 1, True)
              else (braceCount, inFunction))
      in if includes' currentLine ''}''
         then (let braceCount = braceCount - 1
               in (braceCount, inFunction, braceCount = 0 \<and> inFunction))
         else (braceCount, inFunction, False))"

text \<open>
  The inner loop \<^verbatim>\<open>for (let j = i; j < Math.min(i + 50, lines.length); j++)\<close>, from
  \<open>j\<close> on; the result is the final value of \<open>functionEnd\<close>, which starts as \<open>i\<close>.
\<close>

function findFunctionEnd :: "string list \<Rightarrow> nat \<Rightarrow> nat \<Rightarrow> int \<times> bool \<Rightarrow> nat" where
  "findFunctionEnd lines i j st =
     (if j < min (i + 50) (length lines)
      then (case braceStep (lines ! j) st of
              (braceCount, inFunction, stop) \<Rightarrow>
                if stop then j else findFunctionEnd lines i (j + 1) (braceCount, inFunction))
      else i)"
  by pat_completeness auto
termination
  by (relation "measure (\<lambda>(lines, i, j, st). min (i + 50) (length lines) - j)") auto

declare findFunctionEnd.simps [simp del]

text \<open>The body of the outer loop at index \<open>i\<close>: the spans it pushes.\<close>

definition extractAt :: "string list \<Rightarrow> nat \<Rightarrow> functionSpan list" where
  "extractAt lines i =
     (let line = trim (lines ! i)
      in if functionPattern line
         then (let functionStart = i;
                   functionEnd = findFunctionEnd lines i i (0, False);
                   functionCode = join [CHR 0x0A] (slice lines functionStart (functionEnd + 1))
               in if length functionCode > 0
                  then [\<lparr>name = beforeFirst CHR ''('' line,
                         startLine = functionStart + 1,
                         endLine = functionEnd + 1,
                         code = functionCode\<rparr>]
                  else [])
         else [])"

definition extractFunctions :: "string \<Rightarrow> functionSpan list" where
  "extractFunctions content =
     (let lines = split CHR 0x0A content
      in concat (map (extractAt lines) [0 ..< length lines]))"

section \<open>search_indicators\<close>

text \<open>
  What the process reads from outside is a parameter: \<open>readFileSync env f\<close> is the text
  of the file \<open>f\<close> or the error thrown for it, \<open>readdirSync env\<close> the names in the working
  directory or the error thrown, and \<open>zodMessage env v\<close> the message of the error a schema
  throws when it rejects the value \<open>v\<close>. Every error thrown here is an instance of
  \<^verbatim>\<open>Error\<close>, given by its message.
\<close>

datatype thrown = Error string

datatype jsvalue = JUndefined | JString string | JBoolean bool | JObject "(string \<times> jsvalue) list" | JOther

record env =
  readFileSync :: "string \<Rightarrow> thrown + string"
  readdirSync :: "thrown + string list"
  zodMessage :: "jsvalue \<Rightarrow> string"

fun message :: "thrown \<Rightarrow> string" where
  "message (Error m) = m"

text \<open>\<^verbatim>\<open>${error}\<close> in a template string.\<close>

fun errorToString :: "thrown \<Rightarrow> string" where
  "errorToString (Error m) = (if m = [] then ''Error'' else ''Error: '' @ m)"

definition readIndicatorFile :: "env \<Rightarrow> string \<Rightarrow> thrown + string" where
  "readIndicatorFile e filename =
     (case readFileSync e filename of
        Inr content \<Rightarrow> Inr content
      | Inl error \<Rightarrow>
          Inl (Error (''Failed to read indicator file \"'' @ filename @ ''\": '' @ errorToString error)))"

record lineMatch =
  line :: string
  number :: nat

record searchResult =
  "file" :: string
  matches :: "lineMatch list"

text \<open>The two callbacks of the search over the lines of a file and the chain
  \<^verbatim>\<open>lines.map(...).filter(...).slice(0, 3)\<close> that uses them.\<close>

definition numbered :: "string list \<Rightarrow> lineMatch list" where
  "numbered lines =
     map (\<lambda>(l, index). \<lparr>line = trim l, number = index + 1\<rparr>) (zip lines [0 ..< length lines])"

definition matchesTerm :: "bool \<Rightarrow> string \<Rightarrow> lineMatch \<Rightarrow> bool" where
  "matchesTerm caseInsensitive term m =
     (let searchLine = (if caseInsensitive then toLowerCase (line m) else line m)
      in includes' searchLine term)"

definition findMatches :: "bool \<Rightarrow> string \<Rightarrow> string \<Rightarrow> lineMatch list" where
  "findMatches caseInsensitive term content =
     (let lines = split CHR 0x0A content
      in slice (filter (matchesTerm caseInsensitive term) (numbered lines)) 0 3)"

text \<open>The body of the loop over the files: the results it pushes. A file that cannot be
  read is skipped.\<close>

definition searchFile :: "env \<Rightarrow> string \<Rightarrow> bool \<Rightarrow> string \<Rightarrow> searchResult list" where
  "searchFile e searchTerm caseInsensitive indicator =
     (case readIndicatorFile e indicator of
        Inl error \<Rightarrow> []
      | Inr content \<Rightarrow>
          (let searchContent = (if caseInsensitive then toLowerCase content else content);
               term = (if caseInsensitive then toLowerCase searchTerm else searchTerm)
           in if includes' searchContent term
              then [\<lparr>file = indicator, matches = findMatches caseInsensitive term content\<rparr>]
              else []))"

definition searchIndicators :: "env \<Rightarrow> string list \<Rightarrow> string \<Rightarrow> bool \<Rightarrow> searchResult list" where
  "searchIndicators e indicators searchTerm caseInsensitive =
     concat (map (searchFile e searchTerm caseInsensitive) indicators)"

section \<open>The tool-call handler\<close>

text \<open>
  The arguments of a request are a JSON value. Each schema accepts an object and reads
  the fields it names (a field that is absent reads as undefined); a value it rejects
  makes \<^verbatim>\<open>parse\<close> throw.
\<close>

definition field :: "(string \<times> jsvalue) list \<Rightarrow> string \<Rightarrow> jsvalue" where
  "field props k = (case map_of props k of Some v \<Rightarrow> v | None \<Rightarrow> JUndefined)"

definition parseListIndicators :: "env \<Rightarrow> jsvalue \<Rightarrow> thrown + string option" where
  "parseListIndicators e args =
     (case args of
        JObject props \<Rightarrow>
          (case field props ''pattern'' of
             JUndefined \<Rightarrow> Inr None
           | JString p \<Rightarrow> Inr (Some p)
           | _ \<Rightarrow> Inl (Error (zodMessage e args)))
      | _ \<Rightarrow> Inl (Error (zodMessage e args)))"

definition parseIndicatorName :: "env \<Rightarrow> jsvalue \<Rightarrow> thrown + string" where
  "parseIndicatorName e args =
     (case args of
        JObject props \<Rightarrow>
          (case field props ''indicatorName'' of
             JString n \<Rightarrow> Inr n
           | _ \<Rightarrow> Inl (Error (zodMessage e args)))
      | _ \<Rightarrow> Inl (Error (zodMessage e args)))"

definition parseSearchIndicator :: "env \<Rightarrow> jsvalue \<Rightarrow> thrown + string \<times> bool" where
  "parseSearchIndicator e args =
     (case args of
        JObject props \<Rightarrow>
          (case field props ''searchTerm'' of
             JString t \<Rightarrow>
               (case field props ''caseInsensitive'' of
                  JUndefined \<Rightarrow> Inr (t, True)
                | JBoolean b \<Rightarrow> Inr (t, b)
                | _ \<Rightarrow> Inl (Error (zodMessage e args)))
           | _ \<Rightarrow> Inl (Error (zodMessage e args)))
      | _ \<Rightarrow> Inl (Error (zodMessage e args)))"

definition isSystemFile :: "string \<Rightarrow> bool" where
  "isSystemFile fileName =
     (startsWith fileName ''.'' \<or> includes' fileName ''package'' \<or> includes' fileName ''tsconfig'' \<or>
      includes' fileName ''Dockerfile'' \<or> endsWith fileName ''.js'' \<or> endsWith fileName ''.ts'' \<or>
      endsWith fileName ''.json'' \<or> endsWith fileName ''.md'' \<or> endsWith fileName ''.rar'')"

definition getIndicatorFiles :: "env \<Rightarrow> string option \<Rightarrow> thrown + string list" where
  "getIndicatorFiles e pattern =
     (case readdirSync e of
        Inl error \<Rightarrow> Inl (Error (''Failed to read directory: '' @ errorToString error))
      | Inr files \<Rightarrow>
          Inr (filter
                 (\<lambda>file.
                    if isSystemFile file then False
                    else (case pattern of
                            Some p \<Rightarrow>
                              if p \<noteq> [] then includes' (toLowerCase file) (toLowerCase p) else True
                          | None \<Rightarrow> True))
                 files))"

record response =
  "text" :: string
  isError :: bool

fun tierToString :: "tier \<Rightarrow> string" where
  "tierToString Low = ''Low''"
| "tierToString Medium = ''Medium''"
| "tierToString High = ''High''"

definition bullets :: "(string \<Rightarrow> string) \<Rightarrow> string list \<Rightarrow> string" where
  "bullets f xs = (if length xs > 0 then join [CHR 0x0A] (map f xs) else ''None found'')"

definition listText :: "string list \<Rightarrow> string" where
  "listText indicators =
     ''Found '' @ numberToString (length indicators) @ '' indicator files:\<newline>\<newline>'' @
     join [CHR 0x0A]
       (map (\<lambda>(file, i). numberToString (i + 1) @ ''. '' @ file)
          (zip indicators [0 ..< length indicators]))"

definition analysisText :: "string \<Rightarrow> analysis \<Rightarrow> string" where
  "analysisText indicatorName a =
     ''# Analysis of '' @ indicatorName @ ''\<newline>\<newline>## Overview\<newline>- **Lines of Code**: '' @
     numberToString (lineCount a) @ ''\<newline>- **Complexity**: '' @ tierToString (complexity a) @
     ''\<newline>\<newline>## Components Found\<newline>- **Functions**: '' @ numberToString (length (functions a)) @
     '' found\<newline>- **Variables**: '' @ numberToString (length (variables a)) @
     '' found\<newline>- **Plots**: '' @ numberToString (length (plots a)) @
     '' found\<newline>- **Inputs**: '' @ numberToString (length (inputs a)) @
     '' found\<newline>- **Alerts**: '' @ numberToString (length (alerts a)) @
     '' found\<newline>\<newline>## Key Functions\<newline>'' @ bullets (\<lambda>f. ''- '' @ f) (functions a) @
     ''\<newline>\<newline>## Plot Commands\<newline>'' @ bullets (\<lambda>p. ''- '' @ take 100 p @ ''...'') (plots a) @
     ''\<newline>\<newline>## Input Parameters\<newline>'' @ bullets (\<lambda>i. ''- '' @ take 80 i @ ''...'') (inputs a) @
     ''\<newline>''"

definition searchText :: "string \<Rightarrow> searchResult list \<Rightarrow> string" where
  "searchText searchTerm results =
     (if length results > 0
      then ''Found \"'' @ searchTerm @ ''\" in '' @ numberToString (length results) @ '' files:\<newline>\<newline>'' @
           join [CHR 0x0A, CHR 0x0A]
             (map (\<lambda>r. ''**'' @ file r @ ''**:\<newline>'' @
                        join [CHR 0x0A]
                          (map (\<lambda>m. ''  Line '' @ numberToString (number m) @ '': '' @ line m)
                             (matches r)))
                results)
      else ''No matches found for \"'' @ searchTerm @ ''\"'')"

definition functionsText :: "string \<Rightarrow> functionSpan list \<Rightarrow> string" where
  "functionsText indicatorName fs =
     ''# Functions extracted from '' @ indicatorName @ ''\<newline>\<newline>Found '' @
     numberToString (length fs) @ '' functions:\<newline>\<newline>'' @
     join [CHR 0x0A]
       (map (\<lambda>f. ''## '' @ name f @ ''\<newline>**Lines**: '' @ numberToString (startLine f) @ ''-'' @
                  numberToString (endLine f) @ ''\<newline>\<newline>```pinescript\<newline>'' @ code f @
                  ''\<newline>```\<newline>\<newline>---'')
          fs)"

definition ok :: "string \<Rightarrow> thrown + response" where
  "ok t = Inr \<lparr>text = t, isError = False\<rparr>"

text \<open>The \<^verbatim>\<open>switch\<close> inside the \<^verbatim>\<open>try\<close> block: \<open>Inl\<close> is an error thrown out of it.\<close>

definition toolSwitch :: "env \<Rightarrow> string \<Rightarrow> jsvalue \<Rightarrow> thrown + response" where
  "toolSwitch e toolName args =
     (if toolName = ''list_indicators'' then
        (case parseListIndicators e args of
           Inl error \<Rightarrow> Inl error
         | Inr pattern \<Rightarrow>
             (case getIndicatorFiles e pattern of
                Inl error \<Rightarrow> Inl error
              | Inr indicators \<Rightarrow> ok (listText indicators)))
      else if toolName = ''analyze_indicator'' then
        (case parseIndicatorName e args of
           Inl error \<Rightarrow> Inl error
         | Inr indicatorName \<Rightarrow>
             (case readIndicatorFile e indicatorName of
                Inl error \<Rightarrow> Inl error
              | Inr content \<Rightarrow> ok (analysisText indicatorName (analyzeIndicatorCode content))))
      else if toolName = ''search_indicators'' then
        (case parseSearchIndicator e args of
           Inl error \<Rightarrow> Inl error
         | Inr (searchTerm, caseInsensitive) \<Rightarrow>
             (case getIndicatorFiles e None of
                Inl error \<Rightarrow> Inl error
              | Inr indicators \<Rightarrow>
                  ok (searchText searchTerm
                        (searchIndicators e indicators searchTerm caseInsensitive))))
      else if toolName = ''extract_functions'' then
        (case parseIndicatorName e args of
           Inl error \<Rightarrow> Inl error
         | Inr indicatorName \<Rightarrow>
             (case readIndicatorFile e indicatorName of
                Inl error \<Rightarrow> Inl error
              | Inr content \<Rightarrow> ok (functionsText indicatorName (extractFunctions content))))
      else Inl (Error (''Unknown tool: '' @ toolName)))"

text \<open>The handler: the \<^verbatim>\<open>catch\<close> turns whatever the switch throws into a response.
  \<open>Inl\<close> would be an error that leaves the handler.\<close>

definition callTool :: "env \<Rightarrow> string \<Rightarrow> jsvalue \<Rightarrow> thrown + response" where
  "callTool e toolName args =
     (case toolSwitch e toolName args of
        Inr r \<Rightarrow> Inr r
      | Inl error \<Rightarrow> Inr \<lparr>text = ''Error: '' @ message error, isError = True\<rparr>)"

section \<open>analyzeIndicatorCode with undefined and TypeError explicit\<close>

text \<open>
  The analyzer once more, with what JavaScript does outside the domain of an operation
  written out: \<^verbatim>\<open>xs[0]\<close> is undefined (\<open>None\<close>) on an empty array, undefined can be
  pushed onto an array, and calling \<^verbatim>\<open>trim\<close> on undefined throws a TypeError (\<open>Inl\<close>),
  which ends the loop and leaves the function. The array of functions therefore holds
  strings or undefined.
\<close>

definition firstElement :: "'a list \<Rightarrow> 'a option" where
  "firstElement xs = (case xs of [] \<Rightarrow> None | x # rest \<Rightarrow> Some x)"

definition typeErrorTrim :: thrown where
  "typeErrorTrim =
     Error (''Cannot read properties of undefined (reading '' @ [CHR 0x27] @ ''trim'' @ [CHR 0x27] @ '')'')"

definition trimOf :: "string option \<Rightarrow> thrown + string" where
  "trimOf v = (case v of None \<Rightarrow> Inl typeErrorTrim | Some s \<Rightarrow> Inr (trim s))"

record components' =
  functions' :: "string option list"
  variables' :: "string list"
  plots' :: "string list"
  inputs' :: "string list"
  alerts' :: "string list"

record analysis' = components' +
  complexity' :: tier
  lineCount' :: nat

text \<open>The body of the loop over the lines; the name of a variable is
  \<^verbatim>\<open>trimmed.replace(/^var\s+/, '').split('=')[0].trim()\<close>.\<close>

definition scanLine' :: "components' \<Rightarrow> string \<Rightarrow> thrown + components'" where
  "scanLine' st rawLine =
     (let trimmed = trim rawLine;
          st = (if functionPattern trimmed
                then st\<lparr>functions' := functions' st @ [firstElement (split CHR ''('' trimmed)]\<rparr>
                else st)
      in case (if variablePattern trimmed
               then (case trimOf (firstElement (split CHR ''='' (removeVarPrefix trimmed))) of
                       Inl error \<Rightarrow> Inl error
                     | Inr varName \<Rightarrow> Inr (st\<lparr>variables' := variables' st @ [varName]\<rparr>))
               else Inr st) of
           Inl error \<Rightarrow> Inl error
         | Inr st \<Rightarrow>
             Inr (let st = (if plotPattern trimmed then st\<lparr>plots' := plots' st @ [trimmed]\<rparr> else st);
                      st = (if inputPattern trimmed then st\<lparr>inputs' := inputs' st @ [trimmed]\<rparr> else st);
                      st = (if alertPattern trimmed then st\<lparr>alerts' := alerts' st @ [trimmed]\<rparr> else st)
                  in st))"

fun scanLines' :: "components' \<Rightarrow> string list \<Rightarrow> thrown + components'" where
  "scanLines' st [] = Inr st"
| "scanLines' st (rawLine # lines) =
     (case scanLine' st rawLine of
        Inl error \<Rightarrow> Inl error
      | Inr st' \<Rightarrow> scanLines' st' lines)"

definition analyzeIndicatorCode' :: "string \<Rightarrow> thrown + analysis'" where
  "analyzeIndicatorCode' content =
     (let lines = split CHR 0x0A content
      in case scanLines'
                \<lparr>functions' = [], variables' = [], plots' = [], inputs' = [], alerts' = []\<rparr> lines of
           Inl error \<Rightarrow> Inl error
         | Inr st \<Rightarrow>
             Inr \<lparr>functions' = slice (functions' st) 0 10,
                  variables' = slice (variables' st) 0 15,
                  plots' = slice (plots' st) 0 10,
                  inputs' = slice (inputs' st) 0 10,
                  alerts' = slice (alerts' st) 0 5,
                  complexity' =
                    determineComplexity (length lines) (length (functions' st)) (length (plots' st)),
                  lineCount' = length lines\<rparr>)"

section \<open>Notions used in the statements\<close>

text \<open>The counts before the arrays are cut: the lines of the file whose trimmed form
  matches the function pattern, and those whose trimmed form matches the plot pattern.\<close>

definition functionCount :: "string \<Rightarrow> nat" where
  "functionCount content =
     length (filter (\<lambda>l. functionPattern (trim l)) (split CHR 0x0A content))"

definition plotCount :: "string \<Rightarrow> nat" where
  "plotCount content = length (filter (\<lambda>l. plotPattern (trim l)) (split CHR 0x0A content))"

definition atLeastMedium :: "tier \<Rightarrow> bool" where
  "atLeastMedium t = (t = Medium \<or> t = High)"

text \<open>A file of six lines, each a plot call bound to a name.\<close>

definition sixPlots :: string where
  "sixPlots = ''a=plot(b)\<newline>a=plot(b)\<newline>a=plot(b)\<newline>a=plot(b)\<newline>a=plot(b)\<newline>a=plot(b)''"

definition trimmedLines :: "string \<Rightarrow> string list" where
  "trimmedLines content = map trim (split CHR 0x0A content)"

text \<open>A report as the analyzer may return it: every list within its cap and no longer
  than the file, and a file of at least one line.\<close>

definition validReport :: "analysis \<Rightarrow> bool" where
  "validReport a =
     (length (functions a) \<le> 10 \<and> length (variables a) \<le> 15 \<and> length (plots a) \<le> 10 \<and>
      length (inputs a) \<le> 10 \<and> length (alerts a) \<le> 5 \<and> 1 \<le> lineCount a \<and>
      length (functions a) \<le> lineCount a \<and> length (variables a) \<le> lineCount a \<and>
      length (plots a) \<le> lineCount a \<and> length (inputs a) \<le> lineCount a \<and>
      length (alerts a) \<le> lineCount a)"

text \<open>The state of the loop and the report with every entry of the array of functions
  defined.\<close>

definition definedComponents :: "components \<Rightarrow> components'" where
  "definedComponents st =
     \<lparr>functions' = map Some (functions st), variables' = variables st, plots' = plots st,
      inputs' = inputs st, alerts' = alerts st\<rparr>"

definition definedReport :: "analysis \<Rightarrow> analysis'" where
  "definedReport a =
     \<lparr>functions' = map Some (functions a), variables' = variables a, plots' = plots a,
      inputs' = inputs a, alerts' = alerts a, complexity' = complexity a,
      lineCount' = lineCount a\<rparr>"

text \<open>A file of twelve lines, each the head of a call.\<close>

definition twelveCalls :: string where
  "twelveCalls = ''f1(\<newline>f2(\<newline>f3(\<newline>f4(\<newline>f5(\<newline>f6(\<newline>f7(\<newline>f8(\<newline>f9(\<newline>f10(\<newline>f11(\<newline>f12(''"

text \<open>An identifier: a first character of the class \<^verbatim>\<open>[a-zA-Z_]\<close>, then characters
  of the class \<^verbatim>\<open>[a-zA-Z0-9_]\<close>.\<close>

definition isIdentifier :: "string \<Rightarrow> bool" where
  "isIdentifier ident = (case ident of [] \<Rightarrow> False | c # cs \<Rightarrow> isIdentStart c \<and> list_all isIdentChar cs)"

text \<open>The test of a function line as C2 words it, to compare with \<open>functionPattern\<close>:
  an identifier with the opening parenthesis right after it, nothing in between.\<close>

definition claimedFunctionPattern :: "string \<Rightarrow> bool" where
  "claimedFunctionPattern s =
     (case s of
        [] \<Rightarrow> False
      | c # cs \<Rightarrow>
          isIdentStart c \<and>
          (case dropWhile isIdentChar cs of [] \<Rightarrow> False | d # rest \<Rightarrow> d = CHR ''(''))"

text \<open>
  The state \<open>(braceCount, inFunction)\<close> of the inner loop started at line \<open>i\<close> when it
  reaches line \<open>j\<close>, that is, after the lines \<open>i\<close> to \<open>j - 1\<close>. After line \<open>k\<close> the
  count is back at zero inside a function when the count is 0 and \<open>inFunction\<close> is set;
  the window of line \<open>i\<close> is the lines \<open>i\<close> to \<open>min (i + 50) (length lines) - 1\<close>.
\<close>

definition scanState :: "string list \<Rightarrow> nat \<Rightarrow> nat \<Rightarrow> int \<times> bool" where
  "scanState lines i j =
     foldl (\<lambda>st l. case braceStep l st of (braceCount, inFunction, stop) \<Rightarrow> (braceCount, inFunction))
       (0, False) (slice lines i j)"

definition balancedAt :: "string list \<Rightarrow> nat \<Rightarrow> nat \<Rightarrow> bool" where
  "balancedAt lines i k = (case scanState lines i (k + 1) of (braceCount, inFunction) \<Rightarrow> braceCount = 0 \<and> inFunction)"

definition neverBalanced :: "string list \<Rightarrow> nat \<Rightarrow> bool" where
  "neverBalanced lines i = list_all (\<lambda>k. \<not> balancedAt lines i k) [i ..< min (i + 50) (length lines)]"

text \<open>The file of scenario A with its span, and a file with no brace with the span of
  its first line.\<close>

definition scenarioA :: string where
  "scenarioA = ''foo(x) {\<newline>  y = 1\<newline>}\<newline>''"

definition fooSpan :: functionSpan where
  "fooSpan = \<lparr>name = ''foo'', startLine = 1, endLine = 3, code = ''foo(x) {\<newline>  y = 1\<newline>}''\<rparr>"

definition noBraces :: string where
  "noBraces = ''study(x)\<newline>f(a) =>\<newline>    a + 1''"

definition firstSpan :: functionSpan where
  "firstSpan = \<lparr>name = ''study'', startLine = 1, endLine = 1, code = ''study(x)''\<rparr>"

text \<open>The content, the term or a line as the search compares it: in lower case when the
  search is case-insensitive.\<close>

definition normalized :: "bool \<Rightarrow> string \<Rightarrow> string" where
  "normalized caseInsensitive s = (if caseInsensitive then toLowerCase s else s)"

text \<open>A term that fits in a trimmed line: it has no newline and, unless it is empty,
  neither starts nor ends with a white space character.\<close>

definition lineTerm :: "string \<Rightarrow> bool" where
  "lineTerm t =
     (CHR 0x0A \<notin> set t \<and> (t = [] \<or> (\<not> isWhiteSpace (hd t) \<and> \<not> isWhiteSpace (last t))))"

text \<open>A working directory with two indicator files; every other name cannot be read.\<close>

definition sampleEnv :: env where
  "sampleEnv =
     \<lparr>readFileSync =
        (\<lambda>f. if f = ''rsi.pine''
              then Inr ''len = input(14)\<newline>  rsi_value = close\<newline>plot(RSI)\<newline>RSI := 1\<newline>// rsi''
              else if f = ''two.pine'' then Inr ''  x\<newline>y''
              else Inl (Error ''ENOENT: no such file or directory'')),
      readdirSync = Inr [''rsi.pine'', ''two.pine'', ''package.json''],
      zodMessage = (\<lambda>v. ''Invalid arguments'')\<rparr>"

definition rsiResult :: searchResult where
  "rsiResult =
     \<lparr>file = ''rsi.pine'',
      matches = [\<lparr>line = ''rsi_value = close'', number = 2\<rparr>, \<lparr>line = ''plot(RSI)'', number = 3\<rparr>,
                 \<lparr>line = ''RSI := 1'', number = 4\<rparr>]\<rparr>"

definition rsiLines :: string where
  "rsiLines = ''a\<newline>  rsi_value = close\<newline>plot(RSI)\<newline>  RSI := 1  \<newline>// rsi''"

section \<open>Splitting and joining\<close>

lemma split_not_Nil: "split sep s \<noteq> []"
  by (induction s) (auto split: list.splits)

lemma length_split: "length (split sep s) = Suc (count_list s sep)"
  by (induction s) (auto split: list.splits simp: split_not_Nil)

lemma beforeFirst_takeWhile: "beforeFirst sep s = takeWhile (\<lambda>c. c \<noteq> sep) s"
  unfolding beforeFirst_def by (induction s) (auto split: list.splits simp: split_not_Nil)

lemma join_split: "join [sep] (split sep s) = s"
proof (induction s)
  case Nil
  then show ?case by simp
next
  case (Cons c cs)
  obtain l ls where sp: "split sep cs = l # ls"
    using split_not_Nil [of sep cs] by (cases "split sep cs") auto
  show ?case
  proof (cases "c = sep")
    case True
    with Cons sp show ?thesis by simp
  next
    case False
    with Cons sp show ?thesis by (cases ls) auto
  qed
qed

lemma split_no_sep: "l \<in> set (split sep s) \<Longrightarrow> sep \<notin> set l"
  by (induction s arbitrary: l) (auto split: list.splits if_splits simp: split_not_Nil)

section \<open>The loop of analyzeIndicatorCode\<close>

lemmas push_defs =
  scanLine_def Let_def pushFunction_def pushVariable_def pushPlot_def pushInput_def pushAlert_def

lemma scanLine_functions:
  "functions (scanLine st l) =
     functions st @ (if functionPattern (trim l) then [beforeFirst CHR ''('' (trim l)] else [])"
  by (simp add: push_defs)

lemma scanLine_variables:
  "variables (scanLine st l) =
     variables st @
     (if variablePattern (trim l) then [trim (beforeFirst CHR ''='' (removeVarPrefix (trim l)))]
      else [])"
  by (simp add: push_defs)

lemma scanLine_plots:
  "plots (scanLine st l) = plots st @ (if plotPattern (trim l) then [trim l] else [])"
  by (simp add: push_defs)

lemma scanLine_inputs:
  "inputs (scanLine st l) = inputs st @ (if inputPattern (trim l) then [trim l] else [])"
  by (simp add: push_defs)

lemma scanLine_alerts:
  "alerts (scanLine st l) = alerts st @ (if alertPattern (trim l) then [trim l] else [])"
  by (simp add: push_defs)

lemma foldl_functions:
  "functions (foldl scanLine st ls) =
     functions st @ map (beforeFirst CHR ''('') (filter functionPattern (map trim ls))"
  by (induction ls arbitrary: st) (simp_all add: scanLine_functions)

lemma foldl_variables:
  "variables (foldl scanLine st ls) =
     variables st @
     map (\<lambda>t. trim (beforeFirst CHR ''='' (removeVarPrefix t)))
       (filter variablePattern (map trim ls))"
  by (induction ls arbitrary: st) (simp_all add: scanLine_variables)

lemma foldl_plots:
  "plots (foldl scanLine st ls) = plots st @ filter plotPattern (map trim ls)"
  by (induction ls arbitrary: st) (simp_all add: scanLine_plots)

lemma foldl_inputs:
  "inputs (foldl scanLine st ls) = inputs st @ filter inputPattern (map trim ls)"
  by (induction ls arbitrary: st) (simp_all add: scanLine_inputs)

lemma foldl_alerts:
  "alerts (foldl scanLine st ls) = alerts st @ filter alertPattern (map trim ls)"
  by (induction ls arbitrary: st) (simp_all add: scanLine_alerts)

lemma scanLines_functions:
  "functions (scanLines ls) = map (beforeFirst CHR ''('') (filter functionPattern (map trim ls))"
  by (simp add: scanLines_def foldl_functions noComponents_def)

lemma scanLines_variables:
  "variables (scanLines ls) =
     map (\<lambda>t. trim (beforeFirst CHR ''='' (removeVarPrefix t)))
       (filter variablePattern (map trim ls))"
  by (simp add: scanLines_def foldl_variables noComponents_def)

lemma scanLines_plots: "plots (scanLines ls) = filter plotPattern (map trim ls)"
  by (simp add: scanLines_def foldl_plots noComponents_def)

lemma scanLines_inputs: "inputs (scanLines ls) = filter inputPattern (map trim ls)"
  by (simp add: scanLines_def foldl_inputs noComponents_def)

lemma scanLines_alerts: "alerts (scanLines ls) = filter alertPattern (map trim ls)"
  by (simp add: scanLines_def foldl_alerts noComponents_def)

lemma length_scanned_functions:
  "length (functions (scanLines (split CHR 0x0A content))) = functionCount content"
  by (simp add: scanLines_functions functionCount_def filter_map comp_def)

lemma length_scanned_plots:
  "length (plots (scanLines (split CHR 0x0A content))) = plotCount content"
  by (simp add: scanLines_plots plotCount_def filter_map comp_def)

lemma complexity_analyze:
  "complexity (analyzeIndicatorCode content) =
     determineComplexity (length (split CHR 0x0A content)) (functionCount content)
       (plotCount content)"
  by (simp add: analyzeIndicatorCode_def Let_def length_scanned_functions length_scanned_plots)

lemma lineCount_analyze:
  "lineCount (analyzeIndicatorCode content) = length (split CHR 0x0A content)"
  by (simp add: analyzeIndicatorCode_def Let_def)

section \<open>The complexity tier\<close>

text \<open>
  C1, as the code has it. The returned tier is High exactly when the file has more than
  300 lines, more than 20 function lines or more than 5 plot lines, counted before the
  arrays are cut. It is at least Medium exactly when the file has more than 100 lines,
  more than 10 function lines or more than 5 plot lines: the plot test of the second
  threshold raises a file to High whether or not the first threshold holds. It is Low
  otherwise.
\<close>

theorem complexity_tiers:
  "(atLeastMedium (complexity (analyzeIndicatorCode content)) \<longleftrightarrow>
      lineCount (analyzeIndicatorCode content) > 100 \<or> functionCount content > 10 \<or>
      plotCount content > 5) \<and>
   (complexity (analyzeIndicatorCode content) = High \<longleftrightarrow>
      lineCount (analyzeIndicatorCode content) > 300 \<or> functionCount content > 20 \<or>
      plotCount content > 5) \<and>
   (complexity (analyzeIndicatorCode content) = Low \<longleftrightarrow>
      lineCount (analyzeIndicatorCode content) \<le> 100 \<and> functionCount content \<le> 10 \<and>
      plotCount content \<le> 5)"
  by (auto simp add: complexity_analyze lineCount_analyze determineComplexity_def
        atLeastMedium_def)

theorem complexity_tiers_witness:
  "atLeastMedium (complexity (analyzeIndicatorCode sixPlots)) \<and>
   complexity (analyzeIndicatorCode sixPlots) = High \<and>
   plotCount sixPlots = 6 \<and> functionCount sixPlots = 0 \<and>
   lineCount (analyzeIndicatorCode sixPlots) = 6"
proof -
  have counts: "plotCount sixPlots = 6" "functionCount sixPlots = 0"
    "lineCount (analyzeIndicatorCode sixPlots) = 6"
    by code_simp+
  with complexity_tiers [of sixPlots] show ?thesis by (simp add: atLeastMedium_def)
qed

text \<open>
  C1 as it is stated fails on six plot lines: the tier is High, so at least Medium, with
  six lines and no function line.
\<close>

theorem medium_iff_counterexample:
  "atLeastMedium (complexity (analyzeIndicatorCode sixPlots)) \<and>
   \<not> (lineCount (analyzeIndicatorCode sixPlots) > 100 \<or> functionCount sixPlots > 10)"
  by code_simp

section \<open>The line count\<close>

text \<open>
  C7. The line count of the report is the number of segments of the content between
  newline characters, one more than the number of newline characters, so that a content
  ending in a newline has a last, empty segment; joining the segments with newlines gives
  the content back. The content of scenario A has four lines.
\<close>

theorem lineCount_segments:
  "lineCount (analyzeIndicatorCode content) = length (split CHR 0x0A content) \<and>
   lineCount (analyzeIndicatorCode content) = count_list content CHR 0x0A + 1 \<and>
   join [CHR 0x0A] (split CHR 0x0A content) = content \<and>
   lineCount (analyzeIndicatorCode ''foo(x) {\<newline>  y = 1\<newline>}\<newline>'') = 4"
  by (simp add: lineCount_analyze length_split join_split)

section \<open>The lists of the report\<close>

lemma analyze_functions:
  "functions (analyzeIndicatorCode content) =
     take 10 (map (beforeFirst CHR ''('') (filter functionPattern (trimmedLines content)))"
  by (simp add: analyzeIndicatorCode_def Let_def slice_def scanLines_functions trimmedLines_def)

lemma analyze_variables:
  "variables (analyzeIndicatorCode content) =
     take 15 (map (\<lambda>t. trim (beforeFirst CHR ''='' (removeVarPrefix t)))
                (filter variablePattern (trimmedLines content)))"
  by (simp add: analyzeIndicatorCode_def Let_def slice_def scanLines_variables trimmedLines_def)

lemma analyze_plots:
  "plots (analyzeIndicatorCode content) = take 10 (filter plotPattern (trimmedLines content))"
  by (simp add: analyzeIndicatorCode_def Let_def slice_def scanLines_plots trimmedLines_def)

lemma analyze_inputs:
  "inputs (analyzeIndicatorCode content) = take 10 (filter inputPattern (trimmedLines content))"
  by (simp add: analyzeIndicatorCode_def Let_def slice_def scanLines_inputs trimmedLines_def)

lemma analyze_alerts:
  "alerts (analyzeIndicatorCode content) = take 5 (filter alertPattern (trimmedLines content))"
  by (simp add: analyzeIndicatorCode_def Let_def slice_def scanLines_alerts trimmedLines_def)

lemmas analyze_lists =
  analyze_functions analyze_variables analyze_plots analyze_inputs analyze_alerts

lemma length_trimmedLines: "length (trimmedLines content) = length (split CHR 0x0A content)"
  by (simp add: trimmedLines_def)

lemma length_filter_lines:
  "length (filter P (trimmedLines content)) \<le> length (split CHR 0x0A content)"
  using length_filter_le [of P "trimmedLines content"] by (simp add: length_trimmedLines)

text \<open>
  C5. Each list of the report is within its cap (10 functions, 15 variables, 10 plots,
  10 inputs, 5 alerts), and it is the first entries, up to the cap, of the entries that the
  matching lines give in file order: the text before the first parenthesis for a function
  line, the name for a variable line, the trimmed line for the other three.
\<close>

theorem report_caps:
  "length (functions (analyzeIndicatorCode content)) \<le> 10 \<and>
   length (variables (analyzeIndicatorCode content)) \<le> 15 \<and>
   length (plots (analyzeIndicatorCode content)) \<le> 10 \<and>
   length (inputs (analyzeIndicatorCode content)) \<le> 10 \<and>
   length (alerts (analyzeIndicatorCode content)) \<le> 5 \<and>
   functions (analyzeIndicatorCode content) =
     take 10 (map (beforeFirst CHR ''('') (filter functionPattern (trimmedLines content))) \<and>
   variables (analyzeIndicatorCode content) =
     take 15 (map (\<lambda>t. trim (beforeFirst CHR ''='' (removeVarPrefix t)))
                (filter variablePattern (trimmedLines content))) \<and>
   plots (analyzeIndicatorCode content) = take 10 (filter plotPattern (trimmedLines content)) \<and>
   inputs (analyzeIndicatorCode content) = take 10 (filter inputPattern (trimmedLines content)) \<and>
   alerts (analyzeIndicatorCode content) = take 5 (filter alertPattern (trimmedLines content))"
  by (simp add: analyze_lists)

theorem report_caps_witness:
  "length (functions (analyzeIndicatorCode twelveCalls)) = 10 \<and>
   functions (analyzeIndicatorCode twelveCalls) =
     [''f1'', ''f2'', ''f3'', ''f4'', ''f5'', ''f6'', ''f7'', ''f8'', ''f9'', ''f10''] \<and>
   length (filter functionPattern (trimmedLines twelveCalls)) = 12"
proof -
  have all: "map (beforeFirst CHR ''('') (filter functionPattern (trimmedLines twelveCalls)) =
    [''f1'', ''f2'', ''f3'', ''f4'', ''f5'', ''f6'', ''f7'', ''f8'', ''f9'', ''f10'', ''f11'', ''f12'']"
    by code_simp
  have n: "length (filter functionPattern (trimmedLines twelveCalls)) = 12"
    by code_simp
  from report_caps [of twelveCalls] all n show ?thesis by simp
qed

lemma firstElement_split: "firstElement (split sep s) = Some (beforeFirst sep s)"
  using split_not_Nil [of sep s]
  by (cases "split sep s") (simp_all add: firstElement_def beforeFirst_def)

lemma scanLine'_defined:
  "scanLine' (definedComponents st) l = Inr (definedComponents (scanLine st l))"
  by (simp add: scanLine'_def definedComponents_def firstElement_split trimOf_def push_defs)

lemma scanLines'_defined:
  "scanLines' (definedComponents st) lines = Inr (definedComponents (foldl scanLine st lines))"
  by (induction lines arbitrary: st) (simp_all add: scanLine'_defined)

lemma noComponents_defined:
  "\<lparr>functions' = [], variables' = [], plots' = [], inputs' = [], alerts' = []\<rparr> =
     definedComponents noComponents"
  by (simp add: definedComponents_def noComponents_def)

lemma analyze'_defined:
  "analyzeIndicatorCode' content = Inr (definedReport (analyzeIndicatorCode content))"
  unfolding analyzeIndicatorCode'_def noComponents_defined Let_def scanLines'_defined
  by (simp add: definedComponents_def definedReport_def analyzeIndicatorCode_def Let_def
      scanLines_def slice_def take_map)

text \<open>
  C9. With undefined and TypeError explicit, the analyzer returns a report for every
  content: no step throws, since the array that \<^verbatim>\<open>split\<close> gives always has a first
  element, and no entry of the report is undefined. The report is the one of
  \<open>analyzeIndicatorCode\<close>, which is valid: every list within its cap and no longer than
  the file. The empty content gives the report with no entry in any list and tier Low;
  its line count is 1, the one empty segment.
\<close>

theorem analyze_total:
  "(\<exists>r. analyzeIndicatorCode' content = Inr r \<and> None \<notin> set (functions' r) \<and>
        r = definedReport (analyzeIndicatorCode content)) \<and>
   validReport (analyzeIndicatorCode content) \<and>
   analyzeIndicatorCode' '''' =
     Inr \<lparr>functions' = [], variables' = [], plots' = [], inputs' = [], alerts' = [],
          complexity' = Low, lineCount' = 1\<rparr>"
proof (intro conjI)
  have "None \<notin> set (functions' (definedReport (analyzeIndicatorCode content)))"
    by (auto simp: definedReport_def)
  then show "\<exists>r. analyzeIndicatorCode' content = Inr r \<and> None \<notin> set (functions' r) \<and>
        r = definedReport (analyzeIndicatorCode content)"
    by (simp add: analyze'_defined)
next
  have "1 \<le> length (split CHR 0x0A content)"
    by (simp add: length_split)
  moreover have "\<And>n (xs :: string list). length xs \<le> length (split CHR 0x0A content) \<Longrightarrow>
      length (take n xs) \<le> length (split CHR 0x0A content)"
    by simp
  ultimately show "validReport (analyzeIndicatorCode content)"
    unfolding validReport_def analyze_lists lineCount_analyze
    using length_filter_lines by (simp add: min.coboundedI2)
next
  show "analyzeIndicatorCode' '''' =
     Inr \<lparr>functions' = [], variables' = [], plots' = [], inputs' = [], alerts' = [],
          complexity' = Low, lineCount' = 1\<rparr>"
    by code_simp
qed

theorem analyze_total_witness:
  "analyzeIndicatorCode' scenarioA =
     Inr \<lparr>functions' = [Some ''foo''], variables' = [''y''], plots' = [], inputs' = [],
          alerts' = [], complexity' = Low, lineCount' = 4\<rparr> \<and>
   validReport (analyzeIndicatorCode scenarioA)"
proof -
  have "definedReport (analyzeIndicatorCode scenarioA) =
     \<lparr>functions' = [Some ''foo''], variables' = [''y''], plots' = [], inputs' = [],
      alerts' = [], complexity' = Low, lineCount' = 4\<rparr>"
    by code_simp
  with analyze_total [of scenarioA] show ?thesis by auto
qed

section \<open>The function pattern\<close>

lemma whiteSpace_not_ident: "isWhiteSpace c \<Longrightarrow> \<not> isIdentChar c"
  by (auto simp: isWhiteSpace_def isIdentChar_def)

lemma paren_not_ident: "\<not> isIdentChar CHR ''(''"
  by (simp add: isIdentChar_def)

lemma paren_not_whiteSpace: "\<not> isWhiteSpace CHR ''(''"
  by (simp add: isWhiteSpace_def)

lemma dropWhile_all: "list_all P xs \<Longrightarrow> dropWhile P (xs @ ys) = dropWhile P ys"
  by (induction xs) auto

lemma identifierThen_iff:
  assumes X: "\<not> isIdentChar X" "\<not> isWhiteSpace X"
  shows "identifierThen X s \<longleftrightarrow>
     (\<exists>ident ws rest. s = ident @ ws @ X # rest \<and> isIdentifier ident \<and> list_all isWhiteSpace ws)"
proof
  assume m: "identifierThen X s"
  then obtain c cs where s: "s = c # cs" and c: "isIdentStart c"
    by (auto simp: identifierThen_def split: list.splits)
  from m s obtain rest where
    d: "dropWhile isWhiteSpace (dropWhile isIdentChar cs) = X # rest"
    by (auto simp: identifierThen_def split: list.splits)
  let ?ident = "c # takeWhile isIdentChar cs"
  let ?ws = "takeWhile isWhiteSpace (dropWhile isIdentChar cs)"
  have "cs = takeWhile isIdentChar cs @ ?ws @ X # rest"
    using d by (metis takeWhile_dropWhile_id)
  then have "s = ?ident @ ?ws @ X # rest"
    using s by simp
  moreover have "isIdentifier ?ident"
    using c by (simp add: isIdentifier_def list_all_iff) (meson set_takeWhileD)
  moreover have "list_all isWhiteSpace ?ws"
    by (simp add: list_all_iff) (meson set_takeWhileD)
  ultimately show "\<exists>ident ws rest. s = ident @ ws @ X # rest \<and> isIdentifier ident \<and> list_all isWhiteSpace ws"
    by blast
next
  assume "\<exists>ident ws rest. s = ident @ ws @ X # rest \<and> isIdentifier ident \<and> list_all isWhiteSpace ws"
  then obtain ident ws rest where s: "s = ident @ ws @ X # rest"
    and i: "isIdentifier ident" and w: "list_all isWhiteSpace ws"
    by blast
  from i obtain c cs where ident: "ident = c # cs" and c: "isIdentStart c"
    and cs: "list_all isIdentChar cs"
    by (auto simp: isIdentifier_def split: list.splits)
  have "dropWhile isIdentChar (ws @ X # rest) = ws @ X # rest"
  proof (cases ws)
    case Nil
    then show ?thesis using X by simp
  next
    case (Cons a as)
    with w have "\<not> isIdentChar a" by (simp add: whiteSpace_not_ident)
    with Cons show ?thesis by simp
  qed
  then have "dropWhile isIdentChar (cs @ ws @ X # rest) = ws @ X # rest"
    using cs by (simp add: dropWhile_all)
  moreover have "dropWhile isWhiteSpace (ws @ X # rest) = X # rest"
    using w X by (simp add: dropWhile_all)
  ultimately show "identifierThen X s"
    using s ident c by (simp add: identifierThen_def)
qed

lemma functionPattern_iff:
  "functionPattern s \<longleftrightarrow>
     (\<exists>ident ws rest. s = ident @ ws @ ''('' @ rest \<and> isIdentifier ident \<and> list_all isWhiteSpace ws)"
  unfolding functionPattern_def
  using identifierThen_iff [OF paren_not_ident paren_not_whiteSpace] by simp

lemma claimedFunctionPattern_iff:
  "claimedFunctionPattern s \<longleftrightarrow> (\<exists>ident rest. s = ident @ ''('' @ rest \<and> isIdentifier ident)"
proof
  assume m: "claimedFunctionPattern s"
  then obtain c cs rest where s: "s = c # cs" and c: "isIdentStart c"
    and d: "dropWhile isIdentChar cs = CHR ''('' # rest"
    by (auto simp: claimedFunctionPattern_def split: list.splits)
  have "cs = takeWhile isIdentChar cs @ CHR ''('' # rest"
    using d by (metis takeWhile_dropWhile_id)
  then have "s = (c # takeWhile isIdentChar cs) @ ''('' @ rest"
    using s by simp
  moreover have "isIdentifier (c # takeWhile isIdentChar cs)"
    using c by (simp add: isIdentifier_def list_all_iff) (meson set_takeWhileD)
  ultimately show "\<exists>ident rest. s = ident @ ''('' @ rest \<and> isIdentifier ident"
    by blast
next
  assume "\<exists>ident rest. s = ident @ ''('' @ rest \<and> isIdentifier ident"
  then obtain ident rest where s: "s = ident @ ''('' @ rest" and i: "isIdentifier ident"
    by blast
  from i obtain c cs where ident: "ident = c # cs" and c: "isIdentStart c"
    and cs: "list_all isIdentChar cs"
    by (auto simp: isIdentifier_def split: list.splits)
  have "dropWhile isIdentChar (cs @ CHR ''('' # rest) = CHR ''('' # rest"
    using cs by (simp add: dropWhile_all paren_not_ident)
  then show "claimedFunctionPattern s"
    using s ident c by (simp add: claimedFunctionPattern_def)
qed

lemma pushed_iff: "functions (scanLine st l) \<noteq> functions st \<longleftrightarrow> functionPattern (trim l)"
  by (simp add: scanLine_functions)

section \<open>The inner loop of extract_functions\<close>

lemma includes_single: "includes' s [c] \<longleftrightarrow> c \<in> set s"
  unfolding includes'_def
  by (induction s) (auto simp: sublist_Cons_right)

lemma braceStep_eq:
  "braceStep l (bc, inF) =
     (bc + (if CHR ''{'' \<in> set l then 1 else 0) - (if CHR ''}'' \<in> set l then 1 else 0),
      inF \<or> CHR ''{'' \<in> set l,
      CHR ''}'' \<in> set l \<and>
      bc + (if CHR ''{'' \<in> set l then 1 else 0) - (if CHR ''}'' \<in> set l then 1 else 0) = 0 \<and>
      (inF \<or> CHR ''{'' \<in> set l))"
  by (simp add: braceStep_def includes_single Let_def)

lemma foldl_braceStep:
  "foldl (\<lambda>st l. case braceStep l st of (braceCount, inFunction, stop) \<Rightarrow> (braceCount, inFunction))
     (bc, inF) ls =
   (bc + int (length (filter (\<lambda>l. CHR ''{'' \<in> set l) ls)) - int (length (filter (\<lambda>l. CHR ''}'' \<in> set l) ls)),
    inF \<or> (\<exists>l \<in> set ls. CHR ''{'' \<in> set l))"
  by (induction ls arbitrary: bc inF) (auto simp: braceStep_eq)

lemma scanState_eq:
  "scanState lines i j =
     (int (length (filter (\<lambda>l. CHR ''{'' \<in> set l) (slice lines i j))) -
      int (length (filter (\<lambda>l. CHR ''}'' \<in> set l) (slice lines i j))),
      \<exists>l \<in> set (slice lines i j). CHR ''{'' \<in> set l)"
  by (simp add: scanState_def foldl_braceStep)

lemma slice_Suc:
  assumes "i \<le> j" "j < length lines"
  shows "slice lines i (j + 1) = slice lines i j @ [lines ! j]"
proof -
  have "j - i < length (drop i lines)" using assms by simp
  then have "take (Suc (j - i)) (drop i lines) = take (j - i) (drop i lines) @ [drop i lines ! (j - i)]"
    by (rule take_Suc_conv_app_nth)
  moreover have "Suc (j - i) = j + 1 - i" using assms by simp
  moreover have "drop i lines ! (j - i) = lines ! j" using assms by simp
  ultimately show ?thesis by (simp add: slice_def)
qed

lemma scanState_start: "scanState lines i i = (0, False)"
  by (simp add: scanState_def slice_def)

lemma scanState_step:
  assumes "i \<le> j" "j < length lines" "braceStep (lines ! j) (scanState lines i j) = (bc, inF, stop)"
  shows "scanState lines i (j + 1) = (bc, inF)"
  using assms(3) unfolding scanState_def slice_Suc [OF assms(1,2)] by simp

lemma findFunctionEnd_done:
  "\<not> j < min (i + 50) (length lines) \<Longrightarrow> findFunctionEnd lines i j st = i"
  by (subst findFunctionEnd.simps) (simp del: min_less_iff_conj)

lemma findFunctionEnd_stop:
  "j < min (i + 50) (length lines) \<Longrightarrow> braceStep (lines ! j) st = (bc, inF, True) \<Longrightarrow>
   findFunctionEnd lines i j st = j"
  by (subst findFunctionEnd.simps) (simp del: min_less_iff_conj)

lemma findFunctionEnd_next:
  "j < min (i + 50) (length lines) \<Longrightarrow> braceStep (lines ! j) st = (bc, inF, False) \<Longrightarrow>
   findFunctionEnd lines i j st = findFunctionEnd lines i (j + 1) (bc, inF)"
  by (subst findFunctionEnd.simps) (simp del: min_less_iff_conj)

lemma braceStep_stop:
  assumes "braceStep l st = (bc, inF, True)"
  shows "bc = 0 \<and> inF"
  using assms by (cases st) (auto simp: braceStep_eq split: if_splits)

lemma findFunctionEnd_range:
  "i \<le> j \<Longrightarrow>
   findFunctionEnd lines i j st = i \<or>
   (j \<le> findFunctionEnd lines i j st \<and> findFunctionEnd lines i j st < min (i + 50) (length lines))"
proof (induction lines i j st rule: findFunctionEnd.induct)
  case (1 lines i j st)
  show ?case
  proof (cases "j < min (i + 50) (length lines)")
    case False
    then have "findFunctionEnd lines i j st = i" by (rule findFunctionEnd_done)
    then show ?thesis by (rule disjI1)
  next
    case True
    obtain bc inF stop where b: "braceStep (lines ! j) st = (bc, inF, stop)"
      by (cases "braceStep (lines ! j) st") auto
    show ?thesis
    proof (cases stop)
      case True
      with \<open>j < min (i + 50) (length lines)\<close> b
      have "findFunctionEnd lines i j st = j"
        by (simp only: findFunctionEnd_stop)
      with \<open>j < min (i + 50) (length lines)\<close> show ?thesis by simp
    next
      case False
      with \<open>j < min (i + 50) (length lines)\<close> b
      have eq: "findFunctionEnd lines i j st = findFunctionEnd lines i (j + 1) (bc, inF)"
        by (simp only: findFunctionEnd_next)
      have "i \<le> j + 1" using "1.prems" by simp
      from "1.IH" [OF \<open>j < min (i + 50) (length lines)\<close> b [symmetric] refl False this]
      show ?thesis unfolding eq by auto
    qed
  qed
qed

lemma findFunctionEnd_unbalanced:
  assumes "i \<le> j"
    and "\<forall>k. j \<le> k \<and> k < min (i + 50) (length lines) \<longrightarrow> \<not> balancedAt lines i k"
  shows "findFunctionEnd lines i j (scanState lines i j) = i"
  using assms
proof (induction "min (i + 50) (length lines) - j" arbitrary: j)
  case 0
  then have "\<not> j < min (i + 50) (length lines)" by linarith
  then show ?case by (rule findFunctionEnd_done)
next
  case (Suc n)
  from Suc.hyps(2) have j: "j < min (i + 50) (length lines)" by linarith
  obtain bc inF stop where b: "braceStep (lines ! j) (scanState lines i j) = (bc, inF, stop)"
    by (cases "braceStep (lines ! j) (scanState lines i j)") auto
  have next_state: "scanState lines i (j + 1) = (bc, inF)"
    using scanState_step [OF \<open>i \<le> j\<close> _ b] j by simp
  have "\<not> balancedAt lines i j" using Suc.prems(2) j by simp
  then have "\<not> (bc = 0 \<and> inF)" using next_state by (simp add: balancedAt_def)
  then have "\<not> stop" using braceStep_stop [of "lines ! j" "scanState lines i j" bc inF] b by auto
  then have "findFunctionEnd lines i j (scanState lines i j) =
      findFunctionEnd lines i (j + 1) (scanState lines i (j + 1))"
    using findFunctionEnd_next [OF j, of "scanState lines i j" bc inF] b next_state by simp
  also have "\<dots> = i"
  proof (rule Suc.hyps(1))
    show "n = min (i + 50) (length lines) - (j + 1)" using Suc.hyps(2) by simp
    show "i \<le> j + 1" using \<open>i \<le> j\<close> by simp
    show "\<forall>k. j + 1 \<le> k \<and> k < min (i + 50) (length lines) \<longrightarrow> \<not> balancedAt lines i k"
      using Suc.prems(2) by simp
  qed
  finally show ?case .
qed

lemma neverBalanced_end:
  assumes "neverBalanced lines i"
  shows "findFunctionEnd lines i i (0, False) = i"
proof -
  have "\<forall>k. i \<le> k \<and> k < min (i + 50) (length lines) \<longrightarrow> \<not> balancedAt lines i k"
    using assms by (simp add: neverBalanced_def list_all_iff)
  from findFunctionEnd_unbalanced [OF le_refl this] show ?thesis
    by (simp add: scanState_start)
qed

lemma set_join: "l \<in> set ls \<Longrightarrow> set l \<subseteq> set (join sep ls)"
  by (induction sep ls rule: join.induct) auto

lemma split_subset: "l \<in> set (split sep s) \<Longrightarrow> set l \<subseteq> set s"
  using set_join [of l "split sep s" "[sep]"] by (simp add: join_split)

lemma no_open_neverBalanced:
  assumes "\<forall>l \<in> set lines. CHR ''{'' \<notin> set l"
  shows "neverBalanced lines i"
proof -
  have "\<not> balancedAt lines i k" for k
  proof -
    have "set (slice lines i (k + 1)) \<subseteq> set lines"
      unfolding slice_def by (meson set_take_subset set_drop_subset subset_trans)
    with assms show ?thesis
      by (auto simp: balancedAt_def scanState_eq)
  qed
  then show ?thesis by (simp add: neverBalanced_def list_all_iff)
qed

section \<open>The spans of extract_functions\<close>

lemma trim_Nil: "trim [] = []"
  by (simp add: trim_def)

lemma functionPattern_nonempty: "functionPattern (trim l) \<Longrightarrow> l \<noteq> []"
  by (auto simp: functionPattern_def identifierThen_def trim_Nil)

lemma join_nonempty: "x \<noteq> [] \<Longrightarrow> join sep (x # xs) \<noteq> []"
  by (cases xs) auto

lemma slice_first:
  assumes "i < length lines" "i \<le> e"
  shows "slice lines i (e + 1) = lines ! i # take (e - i) (drop (Suc i) lines)"
proof -
  have "drop i lines = lines ! i # drop (Suc i) lines"
    using assms(1) by (simp add: Cons_nth_drop_Suc)
  moreover have "e + 1 - i = Suc (e - i)" using assms(2) by simp
  ultimately show ?thesis by (simp add: slice_def)
qed

lemma findFunctionEnd_ge: "i \<le> findFunctionEnd lines i i st"
  using findFunctionEnd_range [of i i lines st] by auto

lemma functionCode_nonempty:
  assumes "i < length lines" "functionPattern (trim (lines ! i))"
  shows "join [CHR 0x0A] (slice lines i (findFunctionEnd lines i i (0, False) + 1)) \<noteq> []"
  unfolding slice_first [OF assms(1) findFunctionEnd_ge]
  using functionPattern_nonempty [OF assms(2)] by (rule join_nonempty)

lemma extractAt_eq:
  assumes "i < length lines"
  shows "extractAt lines i =
     (if functionPattern (trim (lines ! i))
      then [\<lparr>name = beforeFirst CHR ''('' (trim (lines ! i)),
             startLine = i + 1,
             endLine = findFunctionEnd lines i i (0, False) + 1,
             code = join [CHR 0x0A] (slice lines i (findFunctionEnd lines i i (0, False) + 1))\<rparr>]
      else [])"
  using functionCode_nonempty [OF assms] by (simp add: extractAt_def Let_def)

lemma extractFunctions_mem:
  "sp \<in> set (extractFunctions content) \<longleftrightarrow>
     (\<exists>i < length (split CHR 0x0A content). sp \<in> set (extractAt (split CHR 0x0A content) i))"
  by (auto simp: extractFunctions_def Let_def)

lemma span_lines:
  assumes "sp \<in> set (extractFunctions content)"
  obtains i where "i < length (split CHR 0x0A content)"
    and "functionPattern (trim (split CHR 0x0A content ! i))"
    and "startLine sp = i + 1"
    and "endLine sp = findFunctionEnd (split CHR 0x0A content) i i (0, False) + 1"
proof -
  from assms obtain i where i: "i < length (split CHR 0x0A content)"
    and sp: "sp \<in> set (extractAt (split CHR 0x0A content) i)"
    by (auto simp: extractFunctions_mem)
  from sp have "functionPattern (trim (split CHR 0x0A content ! i))"
    unfolding extractAt_eq [OF i] by (auto split: if_splits)
  moreover from sp have "startLine sp = i + 1"
    unfolding extractAt_eq [OF i] by (auto split: if_splits)
  moreover from sp have "endLine sp = findFunctionEnd (split CHR 0x0A content) i i (0, False) + 1"
    unfolding extractAt_eq [OF i] by (auto split: if_splits)
  ultimately show ?thesis using i that by blast
qed

text \<open>
  C2, as the code has it. A line is given the category Function (the analyzer pushes an
  entry for it, and extract_functions starts a span at it) exactly when its trimmed form
  starts with an identifier, then any number of white space characters, possibly none,
  then an opening parenthesis.
\<close>

theorem function_line_iff:
  "(functions (scanLine st l) \<noteq> functions st \<longleftrightarrow>
     (\<exists>ident ws rest.
        trim l = ident @ ws @ ''('' @ rest \<and> isIdentifier ident \<and> list_all isWhiteSpace ws)) \<and>
   (i < length lines \<longrightarrow>
     (extractAt lines i \<noteq> [] \<longleftrightarrow>
       (\<exists>ident ws rest.
          trim (lines ! i) = ident @ ws @ ''('' @ rest \<and> isIdentifier ident \<and>
          list_all isWhiteSpace ws)))"
  by (simp only: pushed_iff functionPattern_iff [symmetric]) (simp add: extractAt_eq)

theorem function_line_iff_witness:
  "functions (scanLine noComponents ''  foo (x) {'') \<noteq> functions noComponents \<and>
   extractAt [''  foo (x) {''] 0 \<noteq> [] \<and>
   trim ''  foo (x) {'' = ''foo'' @ '' '' @ ''('' @ ''x) {'' \<and>
   isIdentifier ''foo'' \<and> list_all isWhiteSpace '' ''"
proof -
  have d: "trim ''  foo (x) {'' = ''foo'' @ '' '' @ ''('' @ ''x) {''"
    "isIdentifier ''foo''" "list_all isWhiteSpace '' ''"
    by code_simp+
  then have "\<exists>ident ws rest. trim ([''  foo (x) {''] ! 0) = ident @ ws @ ''('' @ rest \<and>
      isIdentifier ident \<and> list_all isWhiteSpace ws"
    by (metis nth_Cons_0)
  moreover from d have "\<exists>ident ws rest. trim ''  foo (x) {'' = ident @ ws @ ''('' @ rest \<and>
      isIdentifier ident \<and> list_all isWhiteSpace ws"
    by blast
  ultimately show ?thesis
    using function_line_iff [of noComponents "''  foo (x) {''" 0 "[''  foo (x) {'']"] d
    by simp
qed

text \<open>
  C2 as it is stated fails on a line with a space before the parenthesis: the analyzer
  pushes an entry for it, and it does not start with an identifier immediately followed
  by the parenthesis.
\<close>

theorem immediate_paren_counterexample:
  "functions (scanLine noComponents ''foo (x)'') = [''foo ''] \<and> \<not> claimedFunctionPattern (trim ''foo (x)'')"
  by code_simp

text \<open>
  C3, as the code has it. A line that contains an opening brace raises the count by one
  and a line that contains a closing brace lowers it by one, however many braces of the
  kind the line has: the running count is the number of lines so far with an opening
  brace minus the number of lines so far with a closing brace. A line with exactly one
  brace of each kind leaves the count as it was.
\<close>

theorem brace_count_per_line:
  "fst (braceStep l (braceCount, inFunction)) =
     braceCount + (if CHR ''{'' \<in> set l then 1 else 0) - (if CHR ''}'' \<in> set l then 1 else 0) \<and>
   (count_list l CHR ''{'' = 1 \<and> count_list l CHR ''}'' = 1 \<longrightarrow>
      fst (braceStep l (braceCount, inFunction)) = braceCount) \<and>
   fst (scanState lines i j) =
     int (length (filter (\<lambda>l. CHR ''{'' \<in> set l) (slice lines i j))) -
     int (length (filter (\<lambda>l. CHR ''}'' \<in> set l) (slice lines i j)))"
proof -
  have "count_list l c = 1 \<Longrightarrow> c \<in> set l" for c :: char
    using count_list_0_iff [of l c] by auto
  then show ?thesis
    by (auto simp: braceStep_eq scanState_eq)
qed

theorem brace_count_per_line_witness:
  "count_list ''} else {'' CHR ''{'' = 1 \<and> count_list ''} else {'' CHR ''}'' = 1 \<and>
   fst (braceStep ''} else {'' (3, True)) = 3 \<and>
   fst (braceStep ''f() {{'' (0, False)) = 1"
proof -
  have c: "count_list ''} else {'' CHR ''{'' = 1 \<and> count_list ''} else {'' CHR ''}'' = 1"
    by code_simp
  have "CHR ''{'' \<in> set ''f() {{''" "CHR ''}'' \<notin> set ''f() {{''"
    by simp_all
  with c brace_count_per_line [of "''} else {''" 3 True "[]" 0 0]
    brace_count_per_line [of "''f() {{''" 0 False "[]" 0 0]
  show ?thesis by simp
qed

text \<open>
  C3 as it is stated fails on a line with two opening braces: the count goes from 0 to 1,
  not to 2, so that the span of that function ends at the first closing brace.
\<close>

theorem every_occurrence_counterexample:
  "fst (braceStep ''f() {{'' (0, False)) \<noteq>
     0 + int (count_list ''f() {{'' CHR ''{'') - int (count_list ''f() {{'' CHR ''}'') \<and>
   fst (braceStep ''f() {{'' (0, False)) = 1 \<and> count_list ''f() {{'' CHR ''{'' = 2 \<and>
   map endLine (extractFunctions ''f() {{\<newline>}\<newline>}'') = [2]"
  by code_simp

text \<open>
  C4. Every span of extractFunctions starts at a line of the file, ends at or after its
  start line, at most 49 lines later and within the file. When, through the window of 50
  lines, the count is never back at zero inside a function, the span ends at its start
  line; so it does for every span of a file with no brace.
\<close>

theorem span_bounds:
  assumes "sp \<in> set (extractFunctions content)"
  shows "1 \<le> startLine sp \<and> startLine sp \<le> endLine sp \<and> endLine sp \<le> startLine sp + 49 \<and>
     endLine sp \<le> length (split CHR 0x0A content) \<and>
     (neverBalanced (split CHR 0x0A content) (startLine sp - 1) \<longrightarrow> endLine sp = startLine sp) \<and>
     (CHR ''{'' \<notin> set content \<and> CHR ''}'' \<notin> set content \<longrightarrow> endLine sp = startLine sp)"
proof -
  let ?lines = "split CHR 0x0A content"
  from assms obtain i where i: "i < length ?lines"
    and s: "startLine sp = i + 1"
    and e: "endLine sp = findFunctionEnd ?lines i i (0, False) + 1"
    by (rule span_lines)
  let ?e = "findFunctionEnd ?lines i i (0, False)"
  have range: "?e = i \<or> (i \<le> ?e \<and> ?e < min (i + 50) (length ?lines))"
    by (rule findFunctionEnd_range) simp
  have b1: "startLine sp \<le> endLine sp" using range s e by auto
  have b2: "endLine sp \<le> startLine sp + 49" using range s e by auto
  have b3: "endLine sp \<le> length ?lines" using range s e i by auto
  have b4: "neverBalanced ?lines (startLine sp - 1) \<longrightarrow> endLine sp = startLine sp"
    using neverBalanced_end [of ?lines i] s e by simp
  have b5: "CHR ''{'' \<notin> set content \<and> CHR ''}'' \<notin> set content \<longrightarrow> endLine sp = startLine sp"
  proof
    assume "CHR ''{'' \<notin> set content \<and> CHR ''}'' \<notin> set content"
    then have "\<forall>l \<in> set ?lines. CHR ''{'' \<notin> set l"
      using split_subset by fastforce
    then have "neverBalanced ?lines i" by (rule no_open_neverBalanced)
    then show "endLine sp = startLine sp"
      using neverBalanced_end [of ?lines i] s e by simp
  qed
  from s b1 b2 b3 b4 b5 show ?thesis by simp
qed

theorem span_bounds_witness:
  "firstSpan \<in> set (extractFunctions noBraces) \<and>
   neverBalanced (split CHR 0x0A noBraces) (startLine firstSpan - 1) \<and>
   CHR ''{'' \<notin> set noBraces \<and> CHR ''}'' \<notin> set noBraces \<and>
   endLine firstSpan = startLine firstSpan \<and> endLine firstSpan \<le> length (split CHR 0x0A noBraces) \<and>
   extractFunctions scenarioA = [fooSpan] \<and>
   startLine fooSpan \<le> endLine fooSpan \<and> endLine fooSpan \<le> startLine fooSpan + 49 \<and>
   endLine fooSpan \<le> length (split CHR 0x0A scenarioA)"
proof -
  have m: "firstSpan \<in> set (extractFunctions noBraces)"
    by code_simp
  have n: "neverBalanced (split CHR 0x0A noBraces) (startLine firstSpan - 1)"
    by code_simp
  have c: "CHR ''{'' \<notin> set noBraces \<and> CHR ''}'' \<notin> set noBraces"
    by code_simp
  have a: "extractFunctions scenarioA = [fooSpan]"
    by code_simp
  then have "fooSpan \<in> set (extractFunctions scenarioA)"
    by simp
  from span_bounds [OF m] span_bounds [OF this] n c m a show ?thesis by simp
qed

section \<open>Lower case, trimming and containment\<close>

lemma char_eq_code: "c = d \<longleftrightarrow> (of_char c :: nat) = of_char d"
  by auto

lemma of_char_lower:
  "isUpperCase c \<Longrightarrow> of_char (toLowerCaseChar c) = (of_char c + 32 :: nat)"
  unfolding toLowerCaseChar_def isUpperCase_def less_eq_char_def
  by (auto simp: of_char_of)

lemma isWhiteSpace_code:
  "isWhiteSpace c \<longleftrightarrow> (of_char c :: nat) \<in> {9, 10, 11, 12, 13, 32, 160}"
  by (simp add: isWhiteSpace_def char_eq_code [of c])

lemma upper_code:
  "isUpperCase c \<longleftrightarrow>
     (65 \<le> (of_char c :: nat) \<and> (of_char c :: nat) \<le> 90) \<or>
     (192 \<le> (of_char c :: nat) \<and> (of_char c :: nat) \<le> 222 \<and> (of_char c :: nat) \<noteq> 215)"
  by (simp add: isUpperCase_def less_eq_char_def char_eq_code [of c])

lemma lower_whiteSpace: "isWhiteSpace (toLowerCaseChar c) = isWhiteSpace c"
proof (cases "isUpperCase c")
  case True
  from of_char_lower [OF True] True show ?thesis
    unfolding isWhiteSpace_code upper_code by auto
next
  case False
  then show ?thesis by (simp add: toLowerCaseChar_def)
qed

lemma lower_newline: "toLowerCaseChar c = CHR 0x0A \<longleftrightarrow> c = CHR 0x0A"
proof (cases "isUpperCase c")
  case True
  from of_char_lower [OF True] True show ?thesis
    unfolding char_eq_code [of _ "CHR 0x0A"] upper_code by auto
next
  case False
  then show ?thesis by (simp add: toLowerCaseChar_def)
qed

lemma split_map:
  assumes "\<And>c. f c = sep \<longleftrightarrow> c = sep"
  shows "split sep (map f s) = map (map f) (split sep s)"
  by (induction s) (auto simp: assms split_not_Nil split: list.splits)

lemma split_lower: "split CHR 0x0A (toLowerCase s) = map toLowerCase (split CHR 0x0A s)"
  unfolding toLowerCase_def using split_map [of toLowerCaseChar "CHR 0x0A"]
  by (metis lower_newline)

lemma dropWhile_lower:
  "dropWhile isWhiteSpace (map toLowerCaseChar s) = map toLowerCaseChar (dropWhile isWhiteSpace s)"
  by (induction s) (auto simp: lower_whiteSpace)

lemma trim_lower: "trim (toLowerCase s) = toLowerCase (trim s)"
proof -
  have "rev (map toLowerCaseChar (dropWhile isWhiteSpace s)) =
      map toLowerCaseChar (rev (dropWhile isWhiteSpace s))"
    by (simp add: rev_map)
  then show ?thesis
    by (simp add: trim_def toLowerCase_def dropWhile_lower rev_map)
qed

lemma dropWhile_keeps:
  assumes "t \<noteq> []" "\<not> P (hd t)"
  shows "\<exists>ps'. dropWhile P (ps @ t @ ss) = ps' @ t @ ss"
proof (induction ps)
  case Nil
  from assms have "dropWhile P (t @ ss) = t @ ss" by (cases t) auto
  then show ?case by (metis append_Nil)
next
  case (Cons a ps)
  show ?case
  proof (cases "P a")
    case True
    with Cons show ?thesis by simp
  next
    case False
    then have "dropWhile P ((a # ps) @ t @ ss) = (a # ps) @ t @ ss" by simp
    then show ?thesis by blast
  qed
qed

lemma sublist_trim:
  assumes "sublist t l" "t = [] \<or> (\<not> isWhiteSpace (hd t) \<and> \<not> isWhiteSpace (last t))"
  shows "sublist t (trim l)"
proof (cases "t = []")
  case True
  then show ?thesis by simp
next
  case False
  with assms(2) have h: "\<not> isWhiteSpace (hd t)" and la: "\<not> isWhiteSpace (last t)" by auto
  from assms(1) obtain ps ss where l: "l = ps @ t @ ss" by (auto simp: sublist_def)
  from dropWhile_keeps [of t isWhiteSpace ps ss, OF False h] obtain ps' where
    d1: "dropWhile isWhiteSpace (ps @ t @ ss) = ps' @ t @ ss" by blast
  have "rev t \<noteq> []" "\<not> isWhiteSpace (hd (rev t))"
    using False la by (simp_all add: hd_rev)
  from dropWhile_keeps [of "rev t" isWhiteSpace "rev ss" "rev ps'", OF this] obtain ss' where
    d2: "dropWhile isWhiteSpace (rev ss @ rev t @ rev ps') = ss' @ rev t @ rev ps'" by blast
  have "trim l = ps' @ t @ rev ss'"
    by (simp add: trim_def l d1 d2)
  then show ?thesis by (simp add: sublist_def) blast
qed

lemma prefix_first_segment:
  assumes "prefix t s" "sep \<notin> set t"
  shows "prefix t (hd (split sep s))"
proof -
  from assms(1) obtain r where s: "s = t @ r" by (auto simp: prefix_def)
  have "takeWhile (\<lambda>c. c \<noteq> sep) (t @ r) = t @ takeWhile (\<lambda>c. c \<noteq> sep) r"
    using assms(2) by (intro takeWhile_append2) auto
  then show ?thesis
    using beforeFirst_takeWhile [of sep s] by (simp add: beforeFirst_def s)
qed

lemma sublist_in_segment:
  assumes "sublist t s" "sep \<notin> set t"
  shows "\<exists>l \<in> set (split sep s). sublist t l"
  using assms
proof (induction s)
  case Nil
  then show ?case by simp
next
  case (Cons c cs)
  obtain l ls where sp: "split sep cs = l # ls"
    using split_not_Nil [of sep cs] by (cases "split sep cs") auto
  show ?case
  proof (cases "t = []")
    case True
    then show ?thesis using split_not_Nil [of sep "c # cs"] by (cases "split sep (c # cs)") auto
  next
    case False
    then obtain a t' where t: "t = a # t'" by (cases t) auto
    from Cons.prems(1) have "prefix t (c # cs) \<or> sublist t cs"
      by (simp add: sublist_Cons_right)
    then show ?thesis
    proof
      assume "sublist t cs"
      with Cons.IH Cons.prems(2) obtain l' where "l' \<in> set (split sep cs)" "sublist t l'"
        by blast
      then show ?thesis
        using sp by (cases "c = sep") (auto simp: sublist_Cons_right)
    next
      assume p: "prefix t (c # cs)"
      with t have a: "a = c" and p': "prefix t' cs" by simp_all
      from Cons.prems(2) t a have ne: "c \<noteq> sep" and "sep \<notin> set t'" by auto
      with p' have "prefix t' (hd (split sep cs))" by (simp add: prefix_first_segment)
      then have "prefix t (c # l)" using t a sp by simp
      then show ?thesis using ne sp by auto
    qed
  qed
qed

lemma take_filter_mem:
  "x \<in> set (take n (filter P xs)) \<longleftrightarrow>
     (\<exists>k < length xs. xs ! k = x \<and> P x \<and> length (filter P (take k xs)) < n)"
proof (induction xs rule: rev_induct)
  case Nil
  then show ?case by simp
next
  case (snoc y xs)
  have "x \<in> set (take n (filter P (xs @ [y]))) \<longleftrightarrow>
      x \<in> set (take n (filter P xs)) \<or> (P y \<and> x = y \<and> length (filter P xs) < n)"
    by (cases "length (filter P xs) < n") auto
  also have "\<dots> \<longleftrightarrow>
      (\<exists>k < length xs. xs ! k = x \<and> P x \<and> length (filter P (take k xs)) < n) \<or>
      (P y \<and> x = y \<and> length (filter P xs) < n)"
    by (simp only: snoc.IH)
  also have "\<dots> \<longleftrightarrow>
      (\<exists>k < length (xs @ [y]). (xs @ [y]) ! k = x \<and> P x \<and>
         length (filter P (take k (xs @ [y]))) < n)"
    (is "?L \<longleftrightarrow> ?R")
  proof
    assume ?L
    then show ?R
    proof
      assume "\<exists>k < length xs. xs ! k = x \<and> P x \<and> length (filter P (take k xs)) < n"
      then obtain k where "k < length xs" "xs ! k = x" "P x" "length (filter P (take k xs)) < n"
        by blast
      then have "k < length (xs @ [y]) \<and> (xs @ [y]) ! k = x \<and> P x \<and>
          length (filter P (take k (xs @ [y]))) < n"
        by (simp add: nth_append)
      then show ?R by blast
    next
      assume "P y \<and> x = y \<and> length (filter P xs) < n"
      then have "length xs < length (xs @ [y]) \<and> (xs @ [y]) ! length xs = x \<and> P x \<and>
          length (filter P (take (length xs) (xs @ [y]))) < n"
        by simp
      then show ?R by blast
    qed
  next
    assume ?R
    then obtain k where k: "k < length (xs @ [y])" "(xs @ [y]) ! k = x" "P x"
      "length (filter P (take k (xs @ [y]))) < n"
      by blast
    show ?L
    proof (cases "k < length xs")
      case True
      with k have "xs ! k = x \<and> P x \<and> length (filter P (take k xs)) < n"
        by (simp add: nth_append)
      with True show ?thesis by blast
    next
      case False
      with k(1) have "k = length xs" by simp
      with k show ?thesis by simp
    qed
  qed
  finally show ?case .
qed

section \<open>The search\<close>

lemma matchesTerm_eq:
  "matchesTerm ci term m = includes' (normalized ci (line m)) term"
  by (simp add: matchesTerm_def normalized_def)

lemma matchesTerm_fun:
  "matchesTerm ci term = (\<lambda>m. includes' (normalized ci (line m)) term)"
  by (rule ext) (rule matchesTerm_eq)

lemma length_numbered: "length (numbered lines) = length lines"
  by (simp add: numbered_def)

lemma numbered_nth:
  "k < length lines \<Longrightarrow> numbered lines ! k = \<lparr>line = trim (lines ! k), number = k + 1\<rparr>"
  by (simp add: numbered_def)

lemma map_line_numbered: "map line (numbered lines) = map trim lines"
  by (rule nth_equalityI) (simp_all add: length_numbered numbered_nth)

lemma findMatches_eq:
  "findMatches ci term content =
     take 3 (filter (matchesTerm ci term) (numbered (split CHR 0x0A content)))"
  by (simp add: findMatches_def slice_def)

lemma filter_numbered:
  "length (filter (matchesTerm ci term) (take k (numbered lines))) =
   length (filter (\<lambda>l. includes' (normalized ci (trim l)) term) (take k lines))"
proof -
  have "filter (\<lambda>l. includes' (normalized ci l) term) (map line (take k (numbered lines))) =
      map line (filter (matchesTerm ci term) (take k (numbered lines)))"
    by (simp add: filter_map comp_def matchesTerm_fun)
  moreover have "map line (take k (numbered lines)) = map trim (take k lines)"
    by (simp add: take_map [symmetric] map_line_numbered)
  ultimately have "length (filter (matchesTerm ci term) (take k (numbered lines))) =
      length (filter (\<lambda>l. includes' (normalized ci l) term) (map trim (take k lines)))"
    by (metis length_map)
  then show ?thesis by (simp add: filter_map comp_def)
qed

lemma findMatches_mem:
  "m \<in> set (findMatches ci term content) \<longleftrightarrow>
     (\<exists>k < length (split CHR 0x0A content).
        m = \<lparr>line = trim (split CHR 0x0A content ! k), number = k + 1\<rparr> \<and>
        includes' (normalized ci (trim (split CHR 0x0A content ! k))) term \<and>
        length (filter (\<lambda>l. includes' (normalized ci (trim l)) term)
                  (take k (split CHR 0x0A content))) < 3)"
proof -
  let ?lines = "split CHR 0x0A content"
  have "m \<in> set (findMatches ci term content) \<longleftrightarrow>
      (\<exists>k < length (numbered ?lines). numbered ?lines ! k = m \<and> matchesTerm ci term m \<and>
         length (filter (matchesTerm ci term) (take k (numbered ?lines))) < 3)"
    unfolding findMatches_eq by (rule take_filter_mem)
  also have "\<dots> \<longleftrightarrow>
      (\<exists>k < length ?lines. m = \<lparr>line = trim (?lines ! k), number = k + 1\<rparr> \<and>
         includes' (normalized ci (trim (?lines ! k))) term \<and>
         length (filter (\<lambda>l. includes' (normalized ci (trim l)) term) (take k ?lines)) < 3)"
    unfolding filter_numbered length_numbered
    by (rule ex_cong) (auto simp: numbered_nth matchesTerm_eq)
  finally show ?thesis .
qed

lemma split_normalized:
  "split CHR 0x0A (normalized ci s) = map (normalized ci) (split CHR 0x0A s)"
  by (cases ci) (simp_all add: normalized_def split_lower map_idI)

lemma trim_normalized: "trim (normalized ci s) = normalized ci (trim s)"
  by (simp add: normalized_def trim_lower)

lemma some_line_matches:
  assumes "includes' (normalized ci content) t" "lineTerm t"
  shows "\<exists>k < length (split CHR 0x0A content).
      matchesTerm ci t (numbered (split CHR 0x0A content) ! k)"
proof -
  let ?lines = "split CHR 0x0A content"
  from assms have "sublist t (normalized ci content)" "CHR 0x0A \<notin> set t"
    by (simp_all add: includes'_def lineTerm_def)
  then obtain l where "l \<in> set (split CHR 0x0A (normalized ci content))" "sublist t l"
    using sublist_in_segment by blast
  then obtain k where k: "k < length ?lines" and l: "l = normalized ci (?lines ! k)"
    unfolding split_normalized by (auto simp: in_set_conv_nth)
  from \<open>sublist t l\<close> assms(2) have "sublist t (trim l)"
    by (intro sublist_trim) (simp_all add: lineTerm_def)
  then have "matchesTerm ci t (numbered ?lines ! k)"
    using k by (simp add: matchesTerm_eq numbered_nth l trim_normalized includes'_def)
  with k show ?thesis by blast
qed

lemma findMatches_nonempty:
  assumes "includes' (normalized ci content) t" "lineTerm t"
  shows "findMatches ci t content \<noteq> []"
proof -
  from some_line_matches [OF assms] obtain k where
    "k < length (split CHR 0x0A content)"
    "matchesTerm ci t (numbered (split CHR 0x0A content) ! k)"
    by blast
  then have "numbered (split CHR 0x0A content) ! k \<in>
      set (filter (matchesTerm ci t) (numbered (split CHR 0x0A content)))"
    by (simp add: length_numbered)
  then have "filter (matchesTerm ci t) (numbered (split CHR 0x0A content)) \<noteq> []"
    by (metis empty_iff empty_set)
  then show ?thesis by (simp add: findMatches_eq)
qed

lemma searchFile_mem:
  assumes "r \<in> set (searchFile e searchTerm ci f)"
  shows "\<exists>content. readFileSync e f = Inr content \<and>
     includes' (normalized ci content) (normalized ci searchTerm) \<and>
     r = \<lparr>file = f, matches = findMatches ci (normalized ci searchTerm) content\<rparr>"
  using assms
  by (auto simp: searchFile_def readIndicatorFile_def normalized_def Let_def
      split: sum.splits if_splits)

text \<open>
  What holds of every file in the result of the search: it is one of the files given, it
  can be read, and its content contains the term (both in lower case when the search is
  case-insensitive). The lines listed for it are the first three, in file order, of the
  lines whose trimmed form contains the term, so they are at most three. When the term
  has no newline and neither starts nor ends with white space, there is at least one.
\<close>

lemma search_results:
  assumes "r \<in> set (searchIndicators e indicators searchTerm ci)"
  shows "length (matches r) \<le> 3 \<and> file r \<in> set indicators \<and>
     (\<exists>content.
        readFileSync e (file r) = Inr content \<and>
        includes' (normalized ci content) (normalized ci searchTerm) \<and>
        matches r =
          take 3 (filter (matchesTerm ci (normalized ci searchTerm))
                    (numbered (split CHR 0x0A content)))) \<and>
     (lineTerm (normalized ci searchTerm) \<longrightarrow> matches r \<noteq> [])"
proof -
  from assms obtain f where f: "f \<in> set indicators" and r: "r \<in> set (searchFile e searchTerm ci f)"
    by (auto simp: searchIndicators_def)
  from searchFile_mem [OF r] obtain content where
    c: "readFileSync e f = Inr content"
    and i: "includes' (normalized ci content) (normalized ci searchTerm)"
    and m: "r = \<lparr>file = f, matches = findMatches ci (normalized ci searchTerm) content\<rparr>"
    by blast
  have "length (matches r) \<le> 3" by (simp add: m findMatches_eq)
  moreover have "file r \<in> set indicators" using f by (simp add: m)
  moreover have "\<exists>content.
        readFileSync e (file r) = Inr content \<and>
        includes' (normalized ci content) (normalized ci searchTerm) \<and>
        matches r =
          take 3 (filter (matchesTerm ci (normalized ci searchTerm))
                    (numbered (split CHR 0x0A content)))"
    using c i by (simp add: m findMatches_eq)
  moreover have "lineTerm (normalized ci searchTerm) \<longrightarrow> matches r \<noteq> []"
    using findMatches_nonempty [OF i] by (simp add: m)
  ultimately show ?thesis by blast
qed

lemma search_results_example:
  "rsiResult \<in> set (searchIndicators sampleEnv [''gone.pine'', ''rsi.pine'', ''two.pine''] ''RSI'' True) \<and>
   lineTerm (normalized True ''RSI'') \<and>
   length (matches rsiResult) \<le> 3 \<and> matches rsiResult \<noteq> [] \<and>
   file rsiResult \<in> set [''gone.pine'', ''rsi.pine'', ''two.pine'']"
proof -
  have m: "rsiResult \<in> set (searchIndicators sampleEnv [''gone.pine'', ''rsi.pine'', ''two.pine''] ''RSI'' True)"
    by code_simp
  have t: "lineTerm (normalized True ''RSI'')"
    by code_simp
  from search_results [OF m] t m show ?thesis by simp
qed

text \<open>
  C6. The search is to list a file only with the lines where the term appears, at most
  the first three, and never a file with no such line. The code does not keep to the
  second part. The file \<open>two.pine\<close> is \<open>''  x\<newline>y''\<close>; its first line contains the
  term \<open>'' x''\<close>. The content passes the test of the whole file, the test of the lines
  is made on the trimmed lines, where the term is gone, and the file is listed with no
  line. So is it for the term \<open>''x\<newline>y''\<close>, which is in the content and in no line.
\<close>

theorem search_lists_file_without_line:
  "readFileSync sampleEnv ''two.pine'' = Inr ''  x\<newline>y'' \<and>
   includes' (split CHR 0x0A ''  x\<newline>y'' ! 0) '' x'' \<and>
   searchIndicators sampleEnv [''rsi.pine'', ''two.pine''] '' x'' False =
     [\<lparr>file = ''two.pine'', matches = []\<rparr>] \<and>
   searchIndicators sampleEnv [''rsi.pine'', ''two.pine''] ''x\<newline>y'' True =
     [\<lparr>file = ''two.pine'', matches = []\<rparr>]"
  by code_simp

text \<open>
  C10, as the code has it. A line is reported as a match exactly when its trimmed form
  (in lower case when the search is case-insensitive) contains the term and fewer than
  three lines before it do; the text recorded for it is the trimmed line, with its number
  in the file. A term that starts with a space is in the content \<open>''  x\<newline>y''\<close> and
  in none of its trimmed lines.
\<close>

theorem line_matches_trimmed:
  "(m \<in> set (findMatches ci term content) \<longleftrightarrow>
     (\<exists>k < length (split CHR 0x0A content).
        m = \<lparr>line = trim (split CHR 0x0A content ! k), number = k + 1\<rparr> \<and>
        includes' (normalized ci (trim (split CHR 0x0A content ! k))) term \<and>
        length (filter (\<lambda>l. includes' (normalized ci (trim l)) term)
                  (take k (split CHR 0x0A content))) < 3)) \<and>
   includes' ''  x\<newline>y'' '' x'' \<and> findMatches False '' x'' ''  x\<newline>y'' = []"
proof -
  have "includes' ''  x\<newline>y'' '' x'' \<and> findMatches False '' x'' ''  x\<newline>y'' = []"
    by code_simp
  with findMatches_mem show ?thesis by blast
qed

theorem line_matches_trimmed_witness:
  "\<lparr>line = ''RSI := 1'', number = 4\<rparr> \<in> set (findMatches True ''rsi'' rsiLines) \<and>
   (\<exists>k < length (split CHR 0x0A rsiLines).
      \<lparr>line = ''RSI := 1'', number = 4\<rparr> =
        \<lparr>line = trim (split CHR 0x0A rsiLines ! k), number = k + 1\<rparr> \<and>
      includes' (normalized True (trim (split CHR 0x0A rsiLines ! k))) ''rsi'' \<and>
      length (filter (\<lambda>l. includes' (normalized True (trim l)) ''rsi'')
                (take k (split CHR 0x0A rsiLines))) < 3) \<and>
   \<lparr>line = ''// rsi'', number = 5\<rparr> \<notin> set (findMatches True ''rsi'' rsiLines)"
proof -
  have m: "\<lparr>line = ''RSI := 1'', number = 4\<rparr> \<in> set (findMatches True ''rsi'' rsiLines)"
    by code_simp
  have n: "\<lparr>line = ''// rsi'', number = 5\<rparr> \<notin> set (findMatches True ''rsi'' rsiLines)"
    by code_simp
  from line_matches_trimmed [of "\<lparr>line = ''RSI := 1'', number = 4\<rparr>" True "''rsi''" rsiLines] m n
  show ?thesis by blast
qed

text \<open>
  C10 as it is stated fails on the fourth matching line of a file: its trimmed form
  contains the term and it is not reported.
\<close>

theorem fourth_match_counterexample:
  "includes' (normalized False (trim (split CHR 0x0A ''x\<newline>x\<newline>x\<newline>x'' ! 3))) ''x'' \<and>
   \<lparr>line = trim (split CHR 0x0A ''x\<newline>x\<newline>x\<newline>x'' ! 3), number = 4\<rparr> \<notin>
     set (findMatches False ''x'' ''x\<newline>x\<newline>x\<newline>x'')"
  by code_simp

section \<open>Errors at the handler\<close>

lemma includes_mid: "includes' (a @ s @ b) s"
  by (simp add: includes'_def)

lemma includes_message: "includes' (errorToString error) (message error)"
proof (cases error)
  case (Error m)
  have "sublist m (''Error: '' @ m)" by (rule sublist_append_leftI)
  with Error show ?thesis by (simp add: includes'_def)
qed

lemma includes_trans: "includes' s t \<Longrightarrow> includes' (a @ s @ b) t"
  unfolding includes'_def by (metis sublist_appendI sublist_order.order_trans)

lemma callTool_caught:
  "toolSwitch e toolName args = Inl error \<Longrightarrow>
   callTool e toolName args = Inr \<lparr>text = ''Error: '' @ message error, isError = True\<rparr>"
  by (simp add: callTool_def)

lemma callTool_returns: "\<exists>r. callTool e toolName args = Inr r"
  by (cases "toolSwitch e toolName args") (simp_all add: callTool_def)

lemma unknown_tool:
  assumes "toolName \<notin> {''list_indicators'', ''analyze_indicator'', ''search_indicators'', ''extract_functions''}"
  shows "toolSwitch e toolName args = Inl (Error (''Unknown tool: '' @ toolName))"
  using assms by (simp add: toolSwitch_def)

lemma analyze_missing_file:
  assumes "readFileSync e filename = Inl error"
  shows "toolSwitch e ''analyze_indicator'' (JObject [(''indicatorName'', JString filename)]) =
     Inl (Error (''Failed to read indicator file \"'' @ filename @ ''\": '' @ errorToString error))"
  using assms
  by (simp add: toolSwitch_def parseIndicatorName_def field_def readIndicatorFile_def)

text \<open>
  C8. The handler always returns a response. Whatever the switch throws (a file that
  cannot be read, arguments that the schema rejects, a tool name that is not known) comes
  back as a response flagged as an error whose text is the message of the error. For
  analyze_indicator on a file that cannot be read, that text contains the file name and
  the error of the read.
\<close>

theorem callTool_catches:
  "(\<exists>r. callTool e toolName args = Inr r) \<and>
   (\<forall>error. toolSwitch e toolName args = Inl error \<longrightarrow>
      callTool e toolName args = Inr \<lparr>text = ''Error: '' @ message error, isError = True\<rparr>) \<and>
   (toolName \<notin> {''list_indicators'', ''analyze_indicator'', ''search_indicators'',
        ''extract_functions''} \<longrightarrow>
      callTool e toolName args =
        Inr \<lparr>text = ''Error: Unknown tool: '' @ toolName, isError = True\<rparr>) \<and>
   (\<forall>error. readFileSync e filename = Inl error \<longrightarrow>
      (\<exists>r. callTool e ''analyze_indicator'' (JObject [(''indicatorName'', JString filename)]) = Inr r \<and>
           isError r \<and> includes' (text r) filename \<and> includes' (text r) (errorToString error) \<and>
           includes' (text r) (message error)))"
proof (intro conjI allI impI)
  show "\<exists>r. callTool e toolName args = Inr r" by (rule callTool_returns)
next
  fix error
  assume "toolSwitch e toolName args = Inl error"
  then show "callTool e toolName args = Inr \<lparr>text = ''Error: '' @ message error, isError = True\<rparr>"
    by (rule callTool_caught)
next
  assume "toolName \<notin> {''list_indicators'', ''analyze_indicator'', ''search_indicators'',
        ''extract_functions''}"
  from callTool_caught [OF unknown_tool [OF this]]
  show "callTool e toolName args =
        Inr \<lparr>text = ''Error: Unknown tool: '' @ toolName, isError = True\<rparr>"
    by simp
next
  fix error
  assume "readFileSync e filename = Inl error"
  from callTool_caught [OF analyze_missing_file [OF this]]
  have c: "callTool e ''analyze_indicator'' (JObject [(''indicatorName'', JString filename)]) =
      Inr \<lparr>text = ''Error: Failed to read indicator file \"'' @ filename @ ''\": '' @ errorToString error,
           isError = True\<rparr>"
    by simp
  have "includes' (''Error: Failed to read indicator file \"'' @ filename @ ''\": '' @ errorToString error) filename"
    by (rule includes_mid)
  moreover have e: "includes' (''Error: Failed to read indicator file \"'' @ filename @ ''\": '' @ errorToString error)
      (errorToString error)"
    using includes_mid [of "''Error: Failed to read indicator file \"'' @ filename @ ''\": ''" "errorToString error" "[]"]
    by simp
  moreover have "includes' (''Error: Failed to read indicator file \"'' @ filename @ ''\": '' @ errorToString error)
      (message error)"
    using includes_trans [OF includes_message, of "''Error: Failed to read indicator file \"'' @ filename @ ''\": ''" error "[]"]
    by simp
  ultimately show "\<exists>r. callTool e ''analyze_indicator'' (JObject [(''indicatorName'', JString filename)]) = Inr r \<and>
           isError r \<and> includes' (text r) filename \<and> includes' (text r) (errorToString error) \<and>
           includes' (text r) (message error)"
    using c by simp
qed

theorem callTool_catches_witness:
  "readFileSync sampleEnv ''gone.pine'' = Inl (Error ''ENOENT: no such file or directory'') \<and>
   callTool sampleEnv ''analyze_indicator'' (JObject [(''indicatorName'', JString ''gone.pine'')]) =
     Inr \<lparr>text = ''Error: Failed to read indicator file \"gone.pine\": Error: ENOENT: no such file or directory'',
          isError = True\<rparr> \<and>
   ''delete_indicator'' \<notin> {''list_indicators'', ''analyze_indicator'', ''search_indicators'',
        ''extract_functions''} \<and>
   callTool sampleEnv ''delete_indicator'' JUndefined =
     Inr \<lparr>text = ''Error: Unknown tool: delete_indicator'', isError = True\<rparr> \<and>
   toolSwitch sampleEnv ''extract_functions'' JUndefined = Inl (Error ''Invalid arguments'') \<and>
   callTool sampleEnv ''extract_functions'' JUndefined =
     Inr \<lparr>text = ''Error: Invalid arguments'', isError = True\<rparr>"
proof -
  have r: "readFileSync sampleEnv ''gone.pine'' = Inl (Error ''ENOENT: no such file or directory'')"
    by (simp add: sampleEnv_def)
  have a: "callTool sampleEnv ''analyze_indicator'' (JObject [(''indicatorName'', JString ''gone.pine'')]) =
     Inr \<lparr>text = ''Error: Failed to read indicator file \"gone.pine\": Error: ENOENT: no such file or directory'',
          isError = True\<rparr>"
    by code_simp
  have n: "''delete_indicator'' \<notin> {''list_indicators'', ''analyze_indicator'', ''search_indicators'',
        ''extract_functions''}"
    by simp
  have s: "toolSwitch sampleEnv ''extract_functions'' JUndefined = Inl (Error ''Invalid arguments'')"
    by code_simp
  from callTool_catches [of sampleEnv "''delete_indicator''" JUndefined "''gone.pine''"] n
  have u: "callTool sampleEnv ''delete_indicator'' JUndefined =
     Inr \<lparr>text = ''Error: Unknown tool: delete_indicator'', isError = True\<rparr>"
    by simp
  from callTool_catches [of sampleEnv "''extract_functions''" JUndefined "''gone.pine''"] s
  have v: "callTool sampleEnv ''extract_functions'' JUndefined =
     Inr \<lparr>text = ''Error: Invalid arguments'', isError = True\<rparr>"
    by simp
  from r a n u s v show ?thesis by blast
qed

end
